theory Spec2Isabelle
  imports Complex_Main "HOL-Library.Char_ord" "HOL-Library.List_Lexorder"
begin

section \<open>Fermentation controller: shallow embedding of NEW\_GUI\_VFINAL.py\<close>

text \<open>
  Python \<open>float\<close> values (temperatures, set points, currents, flows, durations) are
  modelled as \<^typ>\<open>real\<close>; infinities and NaN are not modelled.  Where a property
  depends on how a double-precision result is rounded, the expression is modelled a
  second time with every operation rounded (\<open>fl\<close> below).  Exceptions are values of a
  sum type.
\<close>

datatype py_error = ZeroDivisionError | ValueError | OverflowError

subsection \<open>Rounding\<close>

text \<open>Rounding to the nearest integer, ties to the even one: Python's \<open>round\<close> and the
  rounding of a \<open>timedelta\<close> to whole microseconds.\<close>

definition round_half_even :: "real \<Rightarrow> int" where
  "round_half_even x =
     (let f = \<lfloor>x\<rfloor>; d = x - of_int f
      in if d < 1 / 2 then f else if 1 / 2 < d then f + 1 else if even f then f else f + 1)"

text \<open>
  The double nearest to a real number, ties to the even significand: a significand of
  53 bits, scaled by a power of two.  The exponent range is unbounded, so overflow to
  infinity and gradual underflow are not modelled.  An arithmetic operation on doubles
  returns \<open>fl\<close> of the exact result.
\<close>

definition ulp_exponent :: "real \<Rightarrow> int" where
  "ulp_exponent x = \<lfloor>log 2 \<bar>x\<bar>\<rfloor> - 52"

definition fl :: "real \<Rightarrow> real" where
  "fl x =
     (if x = 0 then 0
      else sgn x * (of_int (round_half_even (\<bar>x\<bar> / 2 powr ulp_exponent x))
                      * 2 powr ulp_exponent x))"

subsection \<open>Flow conversion model\<close>

text \<open>
  The module constants \<open>FLOW_MIN_SCCM\<close> and \<open>FLOW_MAX_SCCM\<close> are read from the process
  environment at import time (defaults 0.0 and 50.0); they are a parameter of the model.
\<close>

record settings =
  FLOW_MIN_SCCM :: real
  FLOW_MAX_SCCM :: real

definition default_settings :: settings where
  "default_settings = \<lparr>FLOW_MIN_SCCM = 0, FLOW_MAX_SCCM = 50\<rparr>"

definition voltage_to_current_ma :: "real \<Rightarrow> real \<Rightarrow> py_error + real" where
  "voltage_to_current_ma voltage shunt_ohms =
     (if shunt_ohms = 0 then Inl ZeroDivisionError
      else Inr ((voltage / shunt_ohms) * 1000))"

definition current_to_flow_sccm :: "settings \<Rightarrow> real \<Rightarrow> real" where
  "current_to_flow_sccm cfg current_ma =
     (if FLOW_MAX_SCCM cfg \<le> FLOW_MIN_SCCM cfg then 0
      else let current_ma' = max 4 (min 20 current_ma);
               span = 16
           in FLOW_MIN_SCCM cfg
                + (current_ma' - 4) * (FLOW_MAX_SCCM cfg - FLOW_MIN_SCCM cfg) / span)"


subsection \<open>Strings and time of day\<close>

text \<open>
  Strings are compared as Python compares \<open>str\<close>: lexicographically, character by
  character (the order on \<^typ>\<open>char list\<close> of \<open>List_Lexorder\<close> over \<open>Char_ord\<close>).
\<close>

definition digit_char :: "nat \<Rightarrow> char" where
  "digit_char d = char_of (48 + d)"

text \<open>Decimal rendering without padding (\<open>str(n)\<close>, \<open>"%d"\<close>).\<close>

fun dec :: "nat \<Rightarrow> string" where
  "dec n = (if n < 10 then [digit_char n] else dec (n div 10) @ [digit_char (n mod 10)])"

declare dec.simps [simp del]

text \<open>Zero-padded to two digits (\<open>"%02d"\<close>), as \<open>strftime\<close> renders \<open>%H\<close>, \<open>%M\<close>,
  \<open>%S\<close>, \<open>%m\<close> and \<open>%d\<close>.\<close>

definition pad2 :: "nat \<Rightarrow> string" where
  "pad2 n = (if n < 10 then CHR ''0'' # dec n else dec n)"

definition is_digit :: "char \<Rightarrow> bool" where
  "is_digit c \<longleftrightarrow> CHR ''0'' \<le> c \<and> c \<le> CHR ''9''"

definition digit_val :: "char \<Rightarrow> nat" where
  "digit_val c = of_char c - 48"

text \<open>
  Strings are sequences of 8-bit characters, so the model covers ASCII text.  The
  characters \<open>int()\<close> skips around the digits of an ASCII string: space, tab, line feed,
  vertical tab, form feed and carriage return.  (The separators 0x1C..0x1F are removed
  by \<open>str.strip()\<close> but rejected by \<open>int()\<close>; decimal digits outside ASCII, which
  \<open>int()\<close> also accepts, are outside the model.)
\<close>

definition is_space :: "char \<Rightarrow> bool" where
  "is_space c \<longleftrightarrow> (of_char c :: nat) \<in> {32, 9, 10, 11, 12, 13}"

definition strip :: "string \<Rightarrow> string" where
  "strip s = rev (dropWhile is_space (rev (dropWhile is_space s)))"

text \<open>
  The digits of an integer literal as \<open>int(s)\<close> reads them: a digit first, then digits,
  each optionally preceded by one underscore.
\<close>

fun py_digits_acc :: "nat \<Rightarrow> string \<Rightarrow> nat option" where
  "py_digits_acc acc [] = Some acc"
| "py_digits_acc acc (c # cs) =
     (if is_digit c then py_digits_acc (10 * acc + digit_val c) cs
      else if c = CHR ''_'' then
        (case cs of
           [] \<Rightarrow> None
         | d # ds \<Rightarrow> if is_digit d then py_digits_acc (10 * acc + digit_val d) ds else None)
      else None)"

definition py_digits :: "string \<Rightarrow> nat option" where
  "py_digits s =
     (case s of
        [] \<Rightarrow> None
      | c # cs \<Rightarrow> if is_digit c then py_digits_acc (digit_val c) cs else None)"

text \<open>\<open>int(s)\<close> on an ASCII string: surrounding whitespace, an optional sign, decimal
  digits; anything else raises \<open>ValueError\<close>.\<close>

definition py_int :: "string \<Rightarrow> py_error + int" where
  "py_int s =
     (case strip s of
        [] \<Rightarrow> Inl ValueError
      | c # cs \<Rightarrow>
          if c = CHR ''+'' then
            (case py_digits cs of None \<Rightarrow> Inl ValueError | Some n \<Rightarrow> Inr (int n))
          else if c = CHR ''-'' then
            (case py_digits cs of None \<Rightarrow> Inl ValueError | Some n \<Rightarrow> Inr (- int n))
          else
            (case py_digits (c # cs) of None \<Rightarrow> Inl ValueError | Some n \<Rightarrow> Inr (int n)))"

text \<open>\<open>s.split(sep)\<close> with a one-character separator.\<close>

fun split_on :: "char \<Rightarrow> string \<Rightarrow> string list" where
  "split_on sep [] = [[]]"
| "split_on sep (c # cs) =
     (if c = sep then [] # split_on sep cs
      else (case split_on sep cs of
              [] \<Rightarrow> [[c]]
            | w # ws \<Rightarrow> (c # w) # ws))"

text \<open>
  \<open>hhmm_ok\<close>: the unpacking \<open>h, m = s.split(":")\<close> raises unless there are exactly two
  parts; every exception makes the validator answer \<open>False\<close>.
\<close>

definition hhmm_ok :: "string \<Rightarrow> bool" where
  "hhmm_ok s =
     (case split_on CHR '':'' s of
        [h, m] \<Rightarrow>
          (case py_int h of
             Inl _ \<Rightarrow> False
           | Inr h' \<Rightarrow>
               (case py_int m of
                  Inl _ \<Rightarrow> False
                | Inr m' \<Rightarrow> 0 \<le> h' \<and> h' \<le> 23 \<and> 0 \<le> m' \<and> m' \<le> 59))
      | _ \<Rightarrow> False)"

subsection \<open>Dates and instants\<close>

text \<open>
  A naive \<open>datetime\<close> is a point on the proleptic Gregorian time line: the model keeps
  the seconds elapsed since 0001-01-01 00:00:00 as a real number.  A \<open>date\<close> is its
  ordinal (\<open>date.toordinal()\<close>, day 1 is 0001-01-01).  Instants compare with \<open><\<close>.
  Instants read from the clock lie far inside the range of \<open>datetime\<close>, so moving them
  by the retention window or a sampling period is \<open>t + x\<close>; a duration taken from a
  calendar is not bounded, and adding it goes through \<open>datetime_add\<close> below.
\<close>

type_synonym datetime = real
type_synonym date = int

text \<open>The first instant past \<open>datetime.max\<close> (9999-12-31 23:59:59.999999, ordinal
  3652059).\<close>

definition MAX_DATETIME :: real where
  "MAX_DATETIME = 3652059 * 86400"

text \<open>
  \<open>dt.timedelta(seconds=x)\<close> for a float \<open>x\<close>, as a number of seconds: the duration is
  rounded to whole microseconds, ties to even, and must lie between -999999999 days and
  the last microsecond of day 999999999.  The product with 1000000 is exact in the
  model.
\<close>

definition timedelta_seconds :: "real \<Rightarrow> py_error + real" where
  "timedelta_seconds x =
     (let us = round_half_even (x * 1000000)
      in if us < - 999999999 * 86400000000 \<or> 1000000000 * 86400000000 \<le> us
         then Inl OverflowError
         else Inr (of_int us / 1000000))"

text \<open>\<open>t + dt.timedelta(seconds=x)\<close>: the sum must be a \<open>datetime\<close>, from year 1 to year
  9999.\<close>

definition datetime_add :: "datetime \<Rightarrow> real \<Rightarrow> py_error + datetime" where
  "datetime_add t x =
     (case timedelta_seconds x of
        Inl e \<Rightarrow> Inl e
      | Inr d \<Rightarrow> if t + d < 0 \<or> MAX_DATETIME \<le> t + d then Inl OverflowError else Inr (t + d))"

definition date_of :: "datetime \<Rightarrow> date" where
  "date_of t = \<lfloor>t / 86400\<rfloor> + 1"

definition hour :: "datetime \<Rightarrow> nat" where
  "hour t = nat ((\<lfloor>t\<rfloor> mod 86400) div 3600)"

definition minute :: "datetime \<Rightarrow> nat" where
  "minute t = nat ((\<lfloor>t\<rfloor> mod 3600) div 60)"

definition second :: "datetime \<Rightarrow> nat" where
  "second t = nat (\<lfloor>t\<rfloor> mod 60)"

text \<open>The instant \<open>datetime.combine(d, time(h, m, s))\<close>.\<close>

definition mk_datetime :: "date \<Rightarrow> nat \<Rightarrow> nat \<Rightarrow> nat \<Rightarrow> datetime" where
  "mk_datetime d h m s = real_of_int ((d - 1) * 86400) + real (h * 3600 + m * 60 + s)"

definition DAYS_IN_MONTH :: "int list" where
  "DAYS_IN_MONTH = [-1, 31, 28, 31, 30, 31, 30, 31, 31, 30, 31, 30, 31]"

definition DAYS_BEFORE_MONTH :: "int list" where
  "DAYS_BEFORE_MONTH = [-1, 0, 31, 59, 90, 120, 151, 181, 212, 243, 273, 304, 334]"

text \<open>Ordinal to (year, month, day), the conversion behind \<open>date.year\<close>, \<open>date.month\<close>
  and \<open>date.day\<close>.\<close>

definition ord2ymd :: "date \<Rightarrow> int \<times> int \<times> int" where
  "ord2ymd n =
     (let n0 = n - 1;
          n400 = n0 div 146097; r400 = n0 mod 146097;
          n100 = r400 div 36524; r100 = r400 mod 36524;
          n4 = r100 div 1461; r4 = r100 mod 1461;
          n1 = r4 div 365; r1 = r4 mod 365;
          year = n400 * 400 + 1 + n100 * 100 + n4 * 4 + n1
      in if n1 = 4 \<or> n100 = 4 then (year - 1, 12, 31)
         else
           let leapyear = (n1 = 3 \<and> (n4 \<noteq> 24 \<or> n100 = 3));
               month = (r1 + 50) div 32;
               preceding = DAYS_BEFORE_MONTH ! nat month
                             + (if month > 2 \<and> leapyear then 1 else 0)
           in if preceding > r1 then
                let month' = month - 1;
                    preceding' = preceding
                                   - (DAYS_IN_MONTH ! nat month'
                                        + (if month' = 2 \<and> leapyear then 1 else 0))
                in (year, month', r1 - preceding' + 1)
              else (year, month, r1 - preceding + 1))"

text \<open>\<open>ymd\<close>: \<open>date.strftime("%Y-%m-%d")\<close>, the key of a calendar entry.\<close>

definition ymd :: "date \<Rightarrow> string" where
  "ymd d = (case ord2ymd d of
              (y, m, dd) \<Rightarrow> dec (nat y) @ ''-'' @ pad2 (nat m) @ ''-'' @ pad2 (nat dd))"

text \<open>\<open>t.strftime("%H:%M")\<close>.\<close>

definition strftime_HM :: "datetime \<Rightarrow> string" where
  "strftime_HM t = pad2 (hour t) @ '':'' @ pad2 (minute t)"

text \<open>\<open>t.strftime("%Y-%m-%d %H:%M")\<close>.\<close>

definition strftime_Ymd_HM :: "datetime \<Rightarrow> string" where
  "strftime_Ymd_HM t = ymd (date_of t) @ '' '' @ strftime_HM t"

subsection \<open>Calendar store\<close>

text \<open>
  A calendar is a dictionary from \<open>ymd\<close> keys to lists of events; an event is a
  dictionary with the keys \<open>"time"\<close> and \<open>"value"\<close>, as \<open>add_event\<close>, \<open>edit_event\<close> and
  \<open>_events_from_rows\<close> build them.  The dictionary is an association list read with
  \<^const>\<open>map_of\<close>.
\<close>

record event =
  ev_time :: string
  ev_value :: real

type_synonym calendar = "(string \<times> event list) list"

definition dict_get :: "calendar \<Rightarrow> string \<Rightarrow> event list" where
  "dict_get d key = (case map_of d key of None \<Rightarrow> [] | Some l \<Rightarrow> l)"

definition sp_from_date_calendar ::
  "calendar option \<Rightarrow> datetime \<Rightarrow> real option \<Rightarrow> real option" where
  "sp_from_date_calendar events_dict t default' =
     (case events_dict of
        None \<Rightarrow> default'
      | Some d \<Rightarrow>
          if d = [] then default'
          else
            let key = ymd (date_of t);
                flist = dict_get d key
            in if flist = [] then default'
               else
                 let hhmm_now = strftime_HM t;
                     todays = filter (\<lambda>e. ev_time e \<noteq> [] \<and> ev_time e \<le> hhmm_now) flist
                 in if todays = [] then default'
                    else Some (ev_value (last (sort_key ev_time todays))))"

definition nut_fire_for_minute :: "calendar option \<Rightarrow> datetime \<Rightarrow> real list" where
  "nut_fire_for_minute events_dict t =
     (case events_dict of
        None \<Rightarrow> []
      | Some d \<Rightarrow>
          if d = [] then []
          else
            let key = ymd (date_of t);
                flist = dict_get d key
            in if flist = [] then []
               else
                 let hhmm_now = strftime_HM t
                 in map ev_value (filter (\<lambda>e. ev_time e = hhmm_now) flist))"

subsection \<open>Hardware layer: temperature sensor\<close>

text \<open>
  Of the class \<open>Hardware\<close> the model keeps what the temperature read uses, and the lines
  it prints.  The body of the \<open>try\<close> block of \<open>read_temp_ds18b20\<close> (opening the device
  file, the CRC check, parsing the text after \<open>t=\<close>) is an input: either the parsed
  number of millidegrees or an exception.  The random draws are inputs as well.  GPIO
  outputs (relays, stepper) are fire-and-forget and never read back; they are not
  modelled.
\<close>

datatype w1_read = W1_value real | W1_exception

datatype printed_line = Temp_read_error string

record hardware =
  sim :: bool
  ds_devices :: "string list"
  last_temp_error :: bool
  sim_bias :: "nat \<Rightarrow> real"
  printed :: "printed_line list"

text \<open>
  \<open>_sim_bias\<close> always holds three numbers, so \<open>min(index, len(self._sim_bias) - 1)\<close> is
  \<open>min index 2\<close>.  The \<open>finally\<close> clause runs after the \<open>return\<close> of the \<open>try\<close> body and
  after the \<open>return\<close> of the \<open>except\<close> handler.
\<close>

definition read_temp_ds18b20 ::
  "hardware \<Rightarrow> nat \<Rightarrow> real \<Rightarrow> w1_read \<Rightarrow> real \<times> hardware" where
  "read_temp_ds18b20 hw index rnd outcome =
     (if sim hw \<or> ds_devices hw = [] then
        let base = 20 + sim_bias hw (min index 2)
        in (base + rnd, hw)
      else
        let index' = (if index \<ge> length (ds_devices hw) then length (ds_devices hw) - 1
                      else index);
            dev = ds_devices hw ! index'
        in (case outcome of
              W1_value milli \<Rightarrow> (milli / 1000, hw\<lparr>last_temp_error := False\<rparr>)
            | W1_exception \<Rightarrow>
                let hw1 = (if \<not> last_temp_error hw
                           then hw\<lparr>printed := printed hw @ [Temp_read_error dev],
                                   last_temp_error := True\<rparr>
                           else hw)
                in (20, hw1\<lparr>last_temp_error := False\<rparr>)))"

subsection \<open>Fermentation channel\<close>

text \<open>
  The state of one \<open>LightFermenterPanel\<close>, without its widgets.  \<open>t_meas\<close> is the
  attribute \<open>t\<close>, \<open>sensor_index\<close> is \<open>int(self.name[1:]) - 1\<close>, \<open>csv_path\<close> is the result
  of \<open>_csv_path()\<close>; \<open>nut_samples\<close> and \<open>nut_last_state\<close> are the entries of the
  application's dictionaries for this channel.
\<close>

record channel =
  ch_name :: string
  sensor_index :: nat
  t_meas :: real
  sim_ambient :: real
  last_update :: datetime
  sp :: real
  band :: real
  manual_mode :: bool
  cold_in :: bool
  hot_in :: bool
  cal_sp :: calendar
  cal_nut :: calendar
  nut_running_until :: "datetime option"
  nut_led_on :: bool
  last_min :: "string option"
  freq_nut :: real
  manual_nut_on :: bool
  csv_running :: bool
  csv_path :: string
  nut_samples :: "(datetime \<times> nat) list"
  nut_last_state :: "nat option"

text \<open>The state \<open>__init__\<close> builds, from the name, the first temperature, the simulated
  ambient temperature, the start instant and the path of the channel's file.\<close>

definition init_channel :: "string \<Rightarrow> nat \<Rightarrow> real \<Rightarrow> real \<Rightarrow> datetime \<Rightarrow> string \<Rightarrow> channel" where
  "init_channel nm idx t0 amb tstart path =
     \<lparr>ch_name = nm, sensor_index = idx, t_meas = t0, sim_ambient = amb,
      last_update = tstart, sp = 20, band = 0.5, manual_mode = False,
      cold_in = False, hot_in = False, cal_sp = [], cal_nut = [],
      nut_running_until = None, nut_led_on = False, last_min = None,
      freq_nut = 1000, manual_nut_on = False, csv_running = False, csv_path = path,
      nut_samples = [], nut_last_state = None\<rparr>"

definition can_force :: "channel \<Rightarrow> bool" where
  "can_force ch = manual_mode ch"

definition forzar_frio :: "channel \<Rightarrow> channel" where
  "forzar_frio ch = (if \<not> can_force ch then ch else ch\<lparr>cold_in := True, hot_in := False\<rparr>)"

definition forzar_caliente :: "channel \<Rightarrow> channel" where
  "forzar_caliente ch =
     (if \<not> can_force ch then ch else ch\<lparr>hot_in := True, cold_in := False\<rparr>)"

definition cerrar_todo :: "channel \<Rightarrow> channel" where
  "cerrar_todo ch = ch\<lparr>cold_in := False, hot_in := False\<rparr>"

definition apply_nutricion_state :: "bool \<Rightarrow> channel \<Rightarrow> channel" where
  "apply_nutricion_state should_run ch = ch\<lparr>nut_led_on := should_run\<rparr>"

definition stop_all :: "channel \<Rightarrow> channel" where
  "stop_all ch =
     apply_nutricion_state False
       (ch\<lparr>manual_mode := True, cold_in := False, hot_in := False,
           nut_running_until := None, manual_nut_on := False\<rparr>)"

definition MAX_FLOW_HISTORY_HOURS :: real where
  "MAX_FLOW_HISTORY_HOURS = 24 * 21"

text \<open>\<open>_record_nut_sample\<close>: the pump state is recorded on a change only, and the
  history is pruned when its first entry is older than the retention window.\<close>

definition record_nut_sample :: "datetime \<Rightarrow> bool \<Rightarrow> channel \<Rightarrow> channel" where
  "record_nut_sample ts state ch =
     (let state_int = (if state then 1 else 0 :: nat);
          ch1 = (if nut_last_state ch = None \<or> nut_last_state ch \<noteq> Some state_int
                 then ch\<lparr>nut_samples := nut_samples ch @ [(ts, state_int)],
                         nut_last_state := Some state_int\<rparr>
                 else ch);
          samples = nut_samples ch1
      in if samples = [] then ch1
         else
           let cutoff = ts - MAX_FLOW_HISTORY_HOURS * 3600
           in if fst (hd samples) < cutoff
              then ch1\<lparr>nut_samples := filter (\<lambda>row. fst row \<ge> cutoff) samples\<rparr>
              else ch1)"

text \<open>\<open>_simulate_temp\<close>, with the random noise as an input.\<close>

definition simulate_temp :: "real \<Rightarrow> real \<Rightarrow> channel \<Rightarrow> channel" where
  "simulate_temp dt_seconds ruido ch =
     (if dt_seconds \<le> 0 then ch
      else
        let sp_obj = sp ch;
            ambient_pull = (sim_ambient ch - t_meas ch) * 0.0008;
            ferment_target = max sp_obj (sim_ambient ch + 4);
            ferment_heat = (ferment_target - t_meas ch) * 0.018;
            heating = (if hot_in ch then 0.22 else 0);
            cooling = (if cold_in ch then - 0.28 else 0);
            delta = (ambient_pull + ferment_heat + heating + cooling + ruido) * dt_seconds
        in ch\<lparr>t_meas := max (- 5) (min 40 (t_meas ch + delta))\<rparr>)"

subsection \<open>Persistence sinks\<close>

text \<open>
  A CSV file is the list of the lines written to it; the file system maps a path to the
  file's lines, \<open>None\<close> when the file does not exist.  A file has zero length exactly
  when it has no line.  Numbers are kept as numbers (their rendering with a fixed
  number of decimals is not modelled).  A sink whose \<open>open\<close> or \<open>write\<close> raises is
  reported in a message box and leaves the file as it was.
\<close>

record proc_row =
  row_timestamp :: string
  row_fermentador :: string
  row_T :: real
  row_SP :: real
  row_banda :: real
  row_cold :: nat
  row_hot :: nat
  row_nutricion_activa :: nat
  row_freq_nut :: real

datatype csv_line =
    Header "string list"
  | Proc_row proc_row
  | Co2_row string string real string
  | Co2_backup_row string string real real real string

type_synonym files = "string \<Rightarrow> csv_line list option"

definition path_exists :: "files \<Rightarrow> string \<Rightarrow> bool" where
  "path_exists fs p \<longleftrightarrow> fs p \<noteq> None"

definition getsize_zero :: "files \<Rightarrow> string \<Rightarrow> bool" where
  "getsize_zero fs p \<longleftrightarrow> fs p = Some []"

text \<open>\<open>open(p, "a")\<close> followed by the writes: the file is created when missing.\<close>

definition append_lines :: "files \<Rightarrow> string \<Rightarrow> csv_line list \<Rightarrow> files" where
  "append_lines fs p ls = fs(p \<mapsto> (case fs p of None \<Rightarrow> [] | Some old \<Rightarrow> old) @ ls)"

definition strftime_Ymd_HMS :: "datetime \<Rightarrow> string" where
  "strftime_Ymd_HMS t = ymd (date_of t) @ '' '' @ strftime_HM t @ '':'' @ pad2 (second t)"

definition proc_fields :: "string list" where
  "proc_fields = [''timestamp'', ''fermentador'', ''T'', ''SP'', ''banda'', ''cold'', ''hot'',
                  ''nutricion_activa'', ''freq_nut'']"

text \<open>
  \<open>_csv_write_row\<close>: \<open>stamp\<close> is the instant \<open>now_str()\<close> reads, \<open>chan_fails\<close> and
  \<open>backup_fails\<close> say whether writing to the channel's file and to the global backup
  raises, \<open>bpath\<close> is \<open>get_backup_path()\<close>.
\<close>

definition csv_write_row ::
  "datetime \<Rightarrow> bool \<Rightarrow> bool \<Rightarrow> string \<Rightarrow> channel \<Rightarrow> files \<Rightarrow> files" where
  "csv_write_row stamp chan_fails backup_fails bpath ch fs =
     (let row = \<lparr>row_timestamp = strftime_Ymd_HMS stamp, row_fermentador = ch_name ch,
                 row_T = t_meas ch, row_SP = sp ch, row_banda = band ch,
                 row_cold = (if cold_in ch then 1 else 0),
                 row_hot = (if hot_in ch then 1 else 0),
                 row_nutricion_activa = (if nut_led_on ch then 1 else 0),
                 row_freq_nut = freq_nut ch\<rparr>;
          fs1 = (if csv_running ch then
                   let ipath = csv_path ch;
                       cabe = (\<not> path_exists fs ipath)
                   in if chan_fails then fs
                      else append_lines fs ipath
                             ((if cabe then [Header proc_fields] else []) @ [Proc_row row])
                 else fs);
          write_header = (\<not> path_exists fs1 bpath \<or> getsize_zero fs1 bpath)
      in if backup_fails then fs1
         else append_lines fs1 bpath
                ((if write_header then [Header proc_fields] else []) @ [Proc_row row]))"

subsection \<open>The control tick\<close>

text \<open>What one call of \<open>update_process\<close> reads from its environment.\<close>

record tick =
  tnow :: datetime
  ruido :: real
  sensor_rnd :: real
  sensor :: w1_read
  stamp :: datetime
  chan_sink_fails :: bool
  backup_sink_fails :: bool

text \<open>The hardware, the files and one channel; \<open>raised\<close> is the exception that left the
  last call of \<open>update_process\<close>, if one did.\<close>

record world =
  hw :: hardware
  files :: files
  backup_path :: string
  chan :: channel
  raised :: "py_error option"

text \<open>The set point of the calendar, when the channel is not in manual mode.\<close>

definition update_process_setpoint :: "datetime \<Rightarrow> channel \<Rightarrow> channel" where
  "update_process_setpoint now ch =
     (if \<not> manual_mode ch then
        (case sp_from_date_calendar (Some (cal_sp ch)) now None of
           None \<Rightarrow> ch
         | Some sp_val \<Rightarrow> ch\<lparr>sp := sp_val\<rparr>)
      else ch)"

text \<open>
  The dosing block: once per minute, the doses fired by the calendar set the deadline
  of the pump.  The addition \<open>tnow + dt.timedelta(seconds=dur_total)\<close> can raise; the
  exception leaves the block before the deadline and \<open>_last_min\<close> are assigned.
\<close>

definition update_process_dosing :: "datetime \<Rightarrow> channel \<Rightarrow> py_error + channel" where
  "update_process_dosing now ch =
     (let current_min = strftime_Ymd_HM now
      in if last_min ch \<noteq> Some current_min then
           let doses = nut_fire_for_minute (Some (cal_nut ch)) now;
               r = (if doses \<noteq> [] then
                      let dur_total = sum_list (filter (\<lambda>d. d > 0) doses)
                      in if dur_total > 0
                         then (case datetime_add now dur_total of
                                 Inl e \<Rightarrow> Inl e
                               | Inr until \<Rightarrow> Inr (ch\<lparr>nut_running_until := Some until\<rparr>))
                         else Inr ch
                    else Inr ch)
           in (case r of
                 Inl e \<Rightarrow> Inl e
               | Inr ch1 \<Rightarrow> Inr (ch1\<lparr>last_min := Some current_min\<rparr>))
         else Inr ch)"

text \<open>The pump runs while the deadline is ahead or the manual toggle is set; an
  expired deadline is cleared.\<close>

definition update_process_schedule :: "datetime \<Rightarrow> channel \<Rightarrow> channel" where
  "update_process_schedule now ch =
     (let (schedule_active, ch1) =
            (case nut_running_until ch of
               Some until \<Rightarrow>
                 if now < until then (True, ch) else (False, ch\<lparr>nut_running_until := None\<rparr>)
             | None \<Rightarrow> (False, ch\<lparr>nut_running_until := None\<rparr>));
          ch2 = apply_nutricion_state (schedule_active \<or> manual_nut_on ch1) ch1
      in record_nut_sample now (nut_led_on ch2) ch2)"

text \<open>The temperature of this tick: simulated, or read from the sensor.\<close>

definition update_process_temperature ::
  "tick \<Rightarrow> real \<Rightarrow> hardware \<Rightarrow> channel \<Rightarrow> hardware \<times> channel" where
  "update_process_temperature tk dt_seconds h ch =
     (if sim h then (h, simulate_temp dt_seconds (ruido tk) ch)
      else
        (case read_temp_ds18b20 h (sensor_index ch) (sensor_rnd tk) (sensor tk) of
           (v, h') \<Rightarrow> (h', ch\<lparr>t_meas := v\<rparr>)))"

text \<open>The hysteresis rule, evaluated when the channel is not in manual mode.\<close>

definition update_process_thermal :: "channel \<Rightarrow> channel" where
  "update_process_thermal ch =
     (if \<not> manual_mode ch then
        let sp' = sp ch;
            band' = max 0.05 (band ch);
            ch1 = (if cold_in ch then
                     (if t_meas ch \<le> sp' - band' then ch\<lparr>cold_in := False\<rparr> else ch)
                   else
                     (if t_meas ch \<ge> sp' + band' then ch\<lparr>cold_in := True\<rparr> else ch));
            ch2 = (if hot_in ch1 then
                     (if t_meas ch1 \<ge> sp' + band' then ch1\<lparr>hot_in := False\<rparr> else ch1)
                   else
                     (if t_meas ch1 \<le> sp' - band' then ch1\<lparr>hot_in := True\<rparr> else ch1))
        in if \<not> cold_in ch2 \<and> \<not> hot_in ch2 then cerrar_todo ch2 else ch2
      else ch)"

text \<open>
  \<open>update_process\<close>.  An exception of the dosing block leaves the method: what was
  assigned before it (\<open>_last_update\<close>, the set point) stays, the rest of the tick is not
  run, and the exception is recorded in \<open>raised\<close>.
\<close>

definition update_process :: "tick \<Rightarrow> world \<Rightarrow> world" where
  "update_process tk w =
     (let ch0 = chan w;
          dt_seconds = max 0.001 (tnow tk - last_update ch0);
          ch1 = ch0\<lparr>last_update := tnow tk\<rparr>;
          ch2 = update_process_setpoint (tnow tk) ch1
      in (case update_process_dosing (tnow tk) ch2 of
            Inl e \<Rightarrow> w\<lparr>chan := ch2, raised := Some e\<rparr>
          | Inr ch3 \<Rightarrow>
              let ch4 = update_process_schedule (tnow tk) ch3;
                  (h', ch5) = update_process_temperature tk dt_seconds (hw w) ch4;
                  ch6 = update_process_thermal ch5;
                  fs' = csv_write_row (stamp tk) (chan_sink_fails tk) (backup_sink_fails tk)
                          (backup_path w) ch6 (files w)
              in w\<lparr>hw := h', files := fs', chan := ch6, raised := None\<rparr>))"

text \<open>
  The operations on a channel: the control tick and the operator's buttons.  An
  exception that leaves \<open>update_process\<close> also ends the application's periodic tick; the
  model lets later ticks run, which only adds behaviours.
\<close>

datatype action =
    Update_process tick
  | Forzar_frio
  | Forzar_caliente
  | Cerrar_todo
  | Stop_all

fun perform :: "world \<Rightarrow> action \<Rightarrow> world" where
  "perform w (Update_process tk) = update_process tk w"
| "perform w Forzar_frio = w\<lparr>chan := forzar_frio (chan w)\<rparr>"
| "perform w Forzar_caliente = w\<lparr>chan := forzar_caliente (chan w)\<rparr>"
| "perform w Cerrar_todo = w\<lparr>chan := cerrar_todo (chan w)\<rparr>"
| "perform w Stop_all = w\<lparr>chan := stop_all (chan w)\<rparr>"

definition run :: "world \<Rightarrow> action list \<Rightarrow> world" where
  "run w acts = foldl perform w acts"

subsection \<open>Flow sampling\<close>

text \<open>
  The entries of the application's dictionaries for one fermenter.  A sample is the
  tuple \<open>(ts, flow, current_ma, voltage, status)\<close>.  The result of
  \<open>reader.read_voltage()\<close> is an input: a voltage or an exception.
\<close>

record reader =
  shunt_ohms :: real

datatype voltage_read = Voltage real | Read_exception

type_synonym sample = "datetime \<times> real \<times> real \<times> real \<times> string"

record flow_channel =
  fermenter :: string
  flow_reader :: "reader option"
  flow_samples :: "sample list"
  flow_next_sample :: "datetime option"
  flow_sample_period :: real
  co2_csv_running :: bool
  co2_csv_path :: string

definition co2_csv_write_row ::
  "bool \<Rightarrow> flow_channel \<Rightarrow> datetime \<Rightarrow> real \<Rightarrow> string \<Rightarrow> files \<Rightarrow> files" where
  "co2_csv_write_row fails fc ts flow status fs =
     (if \<not> co2_csv_running fc then fs
      else
        let row = Co2_row (strftime_Ymd_HMS ts) (fermenter fc) flow status;
            ipath = co2_csv_path fc;
            header = (\<not> path_exists fs ipath)
        in if fails then fs
           else append_lines fs ipath
                  ((if header then [Header [''timestamp'', ''fermentador'', ''flow_sccm'', ''status'']]
                    else []) @ [row]))"

definition co2_backup_write_row ::
  "bool \<Rightarrow> string \<Rightarrow> flow_channel \<Rightarrow> datetime \<Rightarrow> real \<Rightarrow> real \<Rightarrow> real \<Rightarrow> string
     \<Rightarrow> files \<Rightarrow> files" where
  "co2_backup_write_row fails path fc ts flow current_ma voltage status fs =
     (let row = Co2_backup_row (strftime_Ymd_HMS ts) (fermenter fc) flow current_ma voltage
                  status;
          header = (\<not> path_exists fs path \<or> getsize_zero fs path)
      in if fails then fs
         else append_lines fs path
                ((if header then [Header [''timestamp'', ''fermentador'', ''flow_sccm'',
                                          ''current_ma'', ''voltage'', ''status'']]
                  else []) @ [row]))"

text \<open>
  \<open>_flow_take_sample\<close>.  The division in \<open>voltage_to_current_ma\<close> is outside the \<open>try\<close>
  block, so its \<open>ZeroDivisionError\<close> leaves the function.
\<close>

definition flow_take_sample ::
  "settings \<Rightarrow> datetime \<Rightarrow> voltage_read \<Rightarrow> bool \<Rightarrow> bool \<Rightarrow> string
     \<Rightarrow> files \<times> flow_channel \<Rightarrow> py_error + files \<times> flow_channel" where
  "flow_take_sample cfg ts outcome csv_fails backup_fails bpath st =
     (case st of (fs, fc) \<Rightarrow>
        (case flow_reader fc of
           None \<Rightarrow> Inr (fs, fc)
         | Some rd \<Rightarrow>
             (case outcome of
                Read_exception \<Rightarrow>
                  Inr (fs, fc\<lparr>flow_next_sample := Some (ts + flow_sample_period fc)\<rparr>)
              | Voltage voltage \<Rightarrow>
                  (case voltage_to_current_ma voltage (shunt_ohms rd) of
                     Inl e \<Rightarrow> Inl e
                   | Inr current_ma \<Rightarrow>
                       let flow = current_to_flow_sccm cfg current_ma;
                           status = (if current_ma < 3.8 then ''Bajo rango''
                                     else if current_ma > 20.5 then ''Alto rango''
                                     else ''OK'');
                           samples = flow_samples fc @ [(ts, flow, current_ma, voltage, status)];
                           cutoff = ts - MAX_FLOW_HISTORY_HOURS * 3600;
                           fc1 = fc\<lparr>flow_samples := filter (\<lambda>row. fst row \<ge> cutoff) samples\<rparr>;
                           fs1 = co2_csv_write_row csv_fails fc1 ts flow status fs;
                           fs2 = co2_backup_write_row backup_fails bpath fc1 ts flow current_ma
                                   voltage status fs1
                       in Inr (fs2, fc1\<lparr>flow_next_sample := Some (ts + flow_sample_period fc)\<rparr>)))))"

subsection \<open>Notions used in the statements and proofs\<close>

text \<open>The channel as \<open>update_process\<close> has it when it enters the dosing block, and, when
  the dosing block returned \<open>ch3\<close>, just before the hysteresis rule.\<close>

definition before_dosing :: "tick \<Rightarrow> world \<Rightarrow> channel" where
  "before_dosing tk w =
     update_process_setpoint (tnow tk) ((chan w)\<lparr>last_update := tnow tk\<rparr>)"

definition before_thermal :: "tick \<Rightarrow> world \<Rightarrow> channel \<Rightarrow> channel" where
  "before_thermal tk w ch3 =
     snd (update_process_temperature tk (max 0.001 (tnow tk - last_update (chan w))) (hw w)
       (update_process_schedule (tnow tk) ch3))"

text \<open>
  The hysteresis rule of \<open>update_process\<close> with its two thresholds as parameters:
  \<open>lo\<close> is the value the program computed for \<open>sp - band\<close>, \<open>hi\<close> the value it computed
  for \<open>sp + band\<close>.
\<close>

definition thermal_rule :: "real \<Rightarrow> real \<Rightarrow> channel \<Rightarrow> channel" where
  "thermal_rule lo hi ch =
     (let ch1 = (if cold_in ch then
                   (if t_meas ch \<le> lo then ch\<lparr>cold_in := False\<rparr> else ch)
                 else
                   (if t_meas ch \<ge> hi then ch\<lparr>cold_in := True\<rparr> else ch));
          ch2 = (if hot_in ch1 then
                   (if t_meas ch1 \<ge> hi then ch1\<lparr>hot_in := False\<rparr> else ch1)
                 else
                   (if t_meas ch1 \<le> lo then ch1\<lparr>hot_in := True\<rparr> else ch1))
      in if \<not> cold_in ch2 \<and> \<not> hot_in ch2 then cerrar_todo ch2 else ch2)"

definition exclusive :: "world \<Rightarrow> bool" where
  "exclusive w \<longleftrightarrow> \<not> (cold_in (chan w) \<and> hot_in (chan w))"

text \<open>The hysteresis rule evaluated on a series of measured temperatures.\<close>

fun oscillate :: "real list \<Rightarrow> channel \<Rightarrow> channel" where
  "oscillate [] ch = ch"
| "oscillate (x # xs) ch = oscillate xs (update_process_thermal (ch\<lparr>t_meas := x\<rparr>))"

definition digits_value :: "nat \<Rightarrow> string \<Rightarrow> nat" where
  "digits_value a cs = foldl (\<lambda>a c. 10 * a + digit_val c) a cs"

text \<open>The calendar without the events stored at the time \<open>tm\<close>.\<close>

definition without_time :: "string \<Rightarrow> calendar \<Rightarrow> calendar" where
  "without_time tm cal = map (\<lambda>(k, es). (k, filter (\<lambda>e. ev_time e \<noteq> tm) es)) cal"

text \<open>Example data: the day 2024-03-10, two set-point events and two dosing events.\<close>

definition example_day :: date where
  "example_day = 738955"

definition sp_events :: "event list" where
  "sp_events = [\<lparr>ev_time = ''08:00'', ev_value = 20\<rparr>, \<lparr>ev_time = ''14:00'', ev_value = 25\<rparr>]"

definition dose_events :: "event list" where
  "dose_events = [\<lparr>ev_time = ''09:00'', ev_value = 30\<rparr>, \<lparr>ev_time = ''09:00'', ev_value = 20\<rparr>]"

definition example_channel :: channel where
  "example_channel =
     init_channel ''F1'' 0 21.5 21 (mk_datetime example_day 0 0 0) ''Proceso/Temp_F1.csv''"

definition example_hardware :: hardware where
  "example_hardware =
     \<lparr>sim = False, ds_devices = [''/sys/bus/w1/devices/28-0001''], last_temp_error = False,
      sim_bias = (\<lambda>_. 0), printed = []\<rparr>"

text \<open>A channel in automatic mode with a set point of 35 and a band of 2, both actuators
  off, and a tick that reads 40.25 degrees from the sensor.\<close>

definition warm_world :: world where
  "warm_world =
     \<lparr>hw = example_hardware, files = Map.empty, backup_path = ''backup.csv'',
      chan = example_channel\<lparr>sp := 35, band := 2\<rparr>, raised = None\<rparr>"

definition warm_tick :: tick where
  "warm_tick =
     \<lparr>tnow = mk_datetime example_day 9 0 0, ruido = 0, sensor_rnd = 0,
      sensor = W1_value 40250, stamp = mk_datetime example_day 9 0 0,
      chan_sink_fails = False, backup_sink_fails = False\<rparr>"


text \<open>
  The dosing deadline as the specification words it: the values of all fired events are
  summed, a non-positive sum changes nothing, a positive sum \<open>S\<close> sets the deadline to
  \<open>now + S\<close>.  It is compared with \<open>update_process_dosing\<close> below.
\<close>

definition spec_dosing_until :: "datetime \<Rightarrow> channel \<Rightarrow> datetime option" where
  "spec_dosing_until now ch =
     (let S = sum_list (nut_fire_for_minute (Some (cal_nut ch)) now)
      in if S \<le> 0 then nut_running_until ch else Some (now + S))"

text \<open>The sum the code forms: of the strictly positive fired values.\<close>

definition dur_total :: "datetime \<Rightarrow> channel \<Rightarrow> real" where
  "dur_total now ch = sum_list (filter (\<lambda>d. d > 0) (nut_fire_for_minute (Some (cal_nut ch)) now))"

text \<open>A duration of a quarter of a microsecond, and one of a million million seconds.\<close>

definition tiny_dose_events :: "event list" where
  "tiny_dose_events = [\<lparr>ev_time = ''09:00'', ev_value = 1 / 4000000\<rparr>]"

definition huge_dose_events :: "event list" where
  "huge_dose_events = [\<lparr>ev_time = ''09:00'', ev_value = 1000000000000\<rparr>]"

definition mixed_dose_events :: "event list" where
  "mixed_dose_events =
     [\<lparr>ev_time = ''09:00'', ev_value = 30\<rparr>, \<lparr>ev_time = ''09:00'', ev_value = - 20\<rparr>]"

text \<open>The sample a call of \<open>flow_take_sample\<close> leaves at the end of the history.\<close>

definition taken_sample :: "py_error + files \<times> flow_channel \<Rightarrow> sample option" where
  "taken_sample r =
     (case r of
        Inl _ \<Rightarrow> None
      | Inr (fs, fc) \<Rightarrow> if flow_samples fc = [] then None else Some (last (flow_samples fc)))"

definition status_of :: "real \<Rightarrow> string" where
  "status_of current_ma =
     (if current_ma < 3.8 then ''Bajo rango''
      else if current_ma > 20.5 then ''Alto rango''
      else ''OK'')"

definition example_flow_channel :: flow_channel where
  "example_flow_channel =
     \<lparr>fermenter = ''F1'', flow_reader = Some \<lparr>shunt_ohms = 148\<rparr>, flow_samples = [],
      flow_next_sample = None, flow_sample_period = 60, co2_csv_running = False,
      co2_csv_path = ''Proceso/CO2_F1.csv''\<rparr>"

text \<open>Example data for the sinks: the channel is recording, and its file and the global
  backup both exist with zero length.\<close>

definition recording_channel :: channel where
  "recording_channel = example_channel\<lparr>csv_running := True\<rparr>"

definition empty_files :: files where
  "empty_files = [''Proceso/Temp_F1.csv'' \<mapsto> [], ''backup.csv'' \<mapsto> []]"

definition example_row :: proc_row where
  "example_row =
     \<lparr>row_timestamp = ''2024-03-10 09:00:00'', row_fermentador = ''F1'', row_T = 21.5,
      row_SP = 20, row_banda = 0.5, row_cold = 0, row_hot = 0, row_nutricion_activa = 0,
      row_freq_nut = 1000\<rparr>"

text \<open>A settings value with the maximum flow below the minimum.\<close>

definition reversed_settings :: settings where
  "reversed_settings = \<lparr>FLOW_MIN_SCCM = 10, FLOW_MAX_SCCM = 5\<rparr>"

section \<open>Theorems\<close>

subsection \<open>Flow conversion\<close>

text \<open>
  C7. The current-to-flow conversion returns 0 whenever the configured maximum flow does
  not exceed the minimum; otherwise the current is clamped to the 4..20 mA loop span
  (below 4 it counts as 4, above 20 as 20) and the flow is interpolated linearly as
  minimum + (clamped - 4) * (maximum - minimum) / 16.  For 2.0 V over a 148 ohm shunt
  the current is 2.0/148*1000, within 0.005 of 13.51 mA, and with minimum 0 and maximum
  50 the flow is within 0.05 of 29.7.
\<close>

theorem current_to_flow_sccm_spec:
  "(FLOW_MAX_SCCM cfg \<le> FLOW_MIN_SCCM cfg \<longrightarrow> current_to_flow_sccm cfg c = 0)
   \<and> (FLOW_MIN_SCCM cfg < FLOW_MAX_SCCM cfg \<longrightarrow>
        current_to_flow_sccm cfg c =
          FLOW_MIN_SCCM cfg
            + ((if c < 4 then 4 else if 20 < c then 20 else c) - 4)
                * (FLOW_MAX_SCCM cfg - FLOW_MIN_SCCM cfg) / 16)
   \<and> voltage_to_current_ma 2 148 = Inr (2 / 148 * 1000)
   \<and> \<bar>2 / 148 * 1000 - 13.51\<bar> < (0.005 :: real)
   \<and> \<bar>current_to_flow_sccm \<lparr>FLOW_MIN_SCCM = 0, FLOW_MAX_SCCM = 50\<rparr> (2 / 148 * 1000) - 29.7\<bar>
        < 0.05"
proof -
  have clamp: "max 4 (min 20 c) = (if c < 4 then 4 else if 20 < c then 20 else c)"
    by (simp add: max_def min_def)
  have a: "FLOW_MAX_SCCM cfg \<le> FLOW_MIN_SCCM cfg \<longrightarrow> current_to_flow_sccm cfg c = 0"
    by (simp add: current_to_flow_sccm_def)
  have b: "FLOW_MIN_SCCM cfg < FLOW_MAX_SCCM cfg \<longrightarrow>
        current_to_flow_sccm cfg c =
          FLOW_MIN_SCCM cfg
            + ((if c < 4 then 4 else if 20 < c then 20 else c) - 4)
                * (FLOW_MAX_SCCM cfg - FLOW_MIN_SCCM cfg) / 16"
    unfolding current_to_flow_sccm_def Let_def clamp by simp
  have c: "voltage_to_current_ma 2 148 = Inr (2 / 148 * 1000)"
    by (simp add: voltage_to_current_ma_def)
  have d: "\<bar>2 / 148 * 1000 - 13.51\<bar> < (0.005 :: real)"
    by simp
  have e: "\<bar>current_to_flow_sccm \<lparr>FLOW_MIN_SCCM = 0, FLOW_MAX_SCCM = 50\<rparr> (2 / 148 * 1000) - 29.7\<bar>
        < 0.05"
    by (simp add: current_to_flow_sccm_def)
  from a b c d e show ?thesis by blast
qed

theorem current_to_flow_sccm_spec_witness:
  "current_to_flow_sccm \<lparr>FLOW_MIN_SCCM = 10, FLOW_MAX_SCCM = 5\<rparr> 12 = 0
   \<and> current_to_flow_sccm default_settings 12 = 25
   \<and> current_to_flow_sccm default_settings 3 = 0
   \<and> current_to_flow_sccm default_settings 25 = 50"
  using current_to_flow_sccm_spec [of "\<lparr>FLOW_MIN_SCCM = 10, FLOW_MAX_SCCM = 5\<rparr>" 12]
    current_to_flow_sccm_spec [of default_settings 12]
    current_to_flow_sccm_spec [of default_settings 3]
    current_to_flow_sccm_spec [of default_settings 25]
  by (simp add: default_settings_def)

subsection \<open>Double-precision rounding\<close>

lemma round_half_even_of_int: "round_half_even (of_int n) = n"
  by (simp add: round_half_even_def)










lemma fl_zero: "fl 0 = 0"
  by (simp add: fl_def)







lemma round_half_even_close: "\<bar>of_int (round_half_even y) - y\<bar> \<le> 1 / 2"
proof -
  define d where "d = y - of_int \<lfloor>y\<rfloor>"
  have d: "0 \<le> d" "d < 1" unfolding d_def by linarith+
  have "round_half_even y = \<lfloor>y\<rfloor> \<and> d \<le> 1 / 2 \<or> round_half_even y = \<lfloor>y\<rfloor> + 1 \<and> 1 / 2 \<le> d"
    by (auto simp: round_half_even_def Let_def d_def)
  then show ?thesis
  proof
    assume a: "round_half_even y = \<lfloor>y\<rfloor> \<and> d \<le> 1 / 2"
    then have "of_int (round_half_even y) - y = - d" by (simp add: d_def)
    then show ?thesis using a d by simp
  next
    assume a: "round_half_even y = \<lfloor>y\<rfloor> + 1 \<and> 1 / 2 \<le> d"
    then have "of_int (round_half_even y) - y = 1 - d" by (simp add: d_def)
    then show ?thesis using a d by simp
  qed
qed

lemma fl_error: "\<bar>fl x - x\<bar> \<le> 2 powr ulp_exponent x / 2"
proof (cases "x = 0")
  case True
  then show ?thesis by (simp add: fl_zero)
next
  case False
  define p :: real where "p = 2 powr ulp_exponent x"
  define m where "m = \<bar>x\<bar> / p"
  have p: "0 < p" by (simp add: p_def)
  have x: "x = sgn x * (m * p)"
    using p by (simp add: m_def sgn_mult_abs)
  have f: "fl x = sgn x * (of_int (round_half_even m) * p)"
    using False by (simp add: fl_def p_def m_def)
  have "fl x - x = sgn x * ((of_int (round_half_even m) - m) * p)"
    by (subst (2) x) (simp add: f algebra_simps)
  then have "\<bar>fl x - x\<bar> = \<bar>of_int (round_half_even m) - m\<bar> * p"
    using False p by (simp add: abs_mult abs_sgn_eq)
  also have "\<dots> \<le> 1 / 2 * p"
    using round_half_even_close [of m] p by (intro mult_right_mono) simp_all
  finally show ?thesis by (simp add: p_def)
qed

lemma fl_error_small:
  assumes "\<bar>x\<bar> < 2 ^ 49"
  shows "\<bar>fl x - x\<bar> \<le> 1 / 32"
proof (cases "x = 0")
  case True
  then show ?thesis by (simp add: fl_zero)
next
  case False
  then have pos: "0 < \<bar>x\<bar>" by simp
  have "\<bar>x\<bar> < 2 powr 49"
    using assms by simp
  then have "log 2 \<bar>x\<bar> < 49"
    using pos by (simp add: log_less_iff)
  then have "\<lfloor>log 2 \<bar>x\<bar>\<rfloor> < 49" by linarith
  then have "real_of_int (ulp_exponent x) \<le> - 4"
    by (simp add: ulp_exponent_def)
  then have "(2::real) powr ulp_exponent x \<le> 2 powr (- 4)"
    by (rule powr_mono) simp
  also have "(2::real) powr (- 4) = 1 / 16"
    by (simp add: powr_minus_divide)
  finally show ?thesis using fl_error [of x] by linarith
qed

lemma thresholds_separate:
  assumes "1 / 20 \<le> b" "\<bar>s\<bar> + b < 2 ^ 49"
  shows "fl (s - b) < fl (s + b)"
proof -
  have "\<bar>s - b\<bar> < 2 ^ 49"
    using assms by (simp add: abs_if split: if_splits)
  then have lo: "\<bar>fl (s - b) - (s - b)\<bar> \<le> 1 / 32"
    by (rule fl_error_small)
  have "\<bar>s + b\<bar> < 2 ^ 49"
    using assms by (simp add: abs_if split: if_splits)
  then have hi: "\<bar>fl (s + b) - (s + b)\<bar> \<le> 1 / 32"
    by (rule fl_error_small)
  show ?thesis using lo hi assms(1) by (simp add: abs_if split: if_splits)
qed














subsection \<open>Thermal control\<close>

lemma band_pos: "0 < max 0.05 (b :: real)"
  by (simp add: max_def)

lemma thermal_fields:
  "t_meas (update_process_thermal ch) = t_meas ch"
  "sp (update_process_thermal ch) = sp ch"
  "band (update_process_thermal ch) = band ch"
  "manual_mode (update_process_thermal ch) = manual_mode ch"
  "nut_running_until (update_process_thermal ch) = nut_running_until ch"
  by (simp_all add: update_process_thermal_def cerrar_todo_def Let_def)

lemma thermal_exclusive:
  assumes "\<not> (cold_in ch \<and> hot_in ch)"
  shows "\<not> (cold_in (update_process_thermal ch) \<and> hot_in (update_process_thermal ch))"
proof -
  have "sp ch - max 0.05 (band ch) < sp ch + max 0.05 (band ch)"
    using band_pos [of "band ch"] by simp
  then show ?thesis
    using assms by (auto simp: update_process_thermal_def cerrar_todo_def Let_def)
qed

lemma thermal_inside:
  assumes "sp ch - band ch < t_meas ch" "t_meas ch < sp ch + band ch"
  shows "cold_in (update_process_thermal ch) = cold_in ch"
    and "hot_in (update_process_thermal ch) = hot_in ch"
proof -
  have "band ch \<le> max 0.05 (band ch)" by simp
  then have "sp ch - max 0.05 (band ch) < t_meas ch" "t_meas ch < sp ch + max 0.05 (band ch)"
    using assms by linarith+
  then show "cold_in (update_process_thermal ch) = cold_in ch"
    and "hot_in (update_process_thermal ch) = hot_in ch"
    by (auto simp: update_process_thermal_def cerrar_todo_def Let_def)
qed

lemma setpoint_fields:
  "cold_in (update_process_setpoint n ch) = cold_in ch"
  "hot_in (update_process_setpoint n ch) = hot_in ch"
  "manual_mode (update_process_setpoint n ch) = manual_mode ch"
  "cal_nut (update_process_setpoint n ch) = cal_nut ch"
  "last_min (update_process_setpoint n ch) = last_min ch"
  "nut_running_until (update_process_setpoint n ch) = nut_running_until ch"
  by (simp_all add: update_process_setpoint_def split: option.split)

lemma dosing_fields:
  assumes "update_process_dosing n ch = Inr ch'"
  shows "cold_in ch' = cold_in ch" "hot_in ch' = hot_in ch" "manual_mode ch' = manual_mode ch"
  using assms
  by (auto simp: update_process_dosing_def Let_def split: if_splits sum.splits)

lemma record_nut_fields:
  "cold_in (record_nut_sample n b ch) = cold_in ch"
  "hot_in (record_nut_sample n b ch) = hot_in ch"
  "manual_mode (record_nut_sample n b ch) = manual_mode ch"
  "nut_running_until (record_nut_sample n b ch) = nut_running_until ch"
  by (simp_all add: record_nut_sample_def Let_def)

lemma schedule_fields:
  "cold_in (update_process_schedule n ch) = cold_in ch"
  "hot_in (update_process_schedule n ch) = hot_in ch"
  "manual_mode (update_process_schedule n ch) = manual_mode ch"
  by (simp_all add: update_process_schedule_def record_nut_fields apply_nutricion_state_def
      Let_def split: option.split prod.split)

lemma temperature_fields:
  "cold_in (snd (update_process_temperature tk d h ch)) = cold_in ch"
  "hot_in (snd (update_process_temperature tk d h ch)) = hot_in ch"
  "manual_mode (snd (update_process_temperature tk d h ch)) = manual_mode ch"
  "nut_running_until (snd (update_process_temperature tk d h ch)) = nut_running_until ch"
  by (simp_all add: update_process_temperature_def simulate_temp_def Let_def split: prod.split)

lemma update_process_raised:
  assumes "update_process_dosing (tnow tk) (before_dosing tk w) = Inl e"
  shows "chan (update_process tk w) = before_dosing tk w"
    and "raised (update_process tk w) = Some e"
  using assms by (simp_all add: update_process_def before_dosing_def Let_def)

lemma update_process_returned:
  assumes "update_process_dosing (tnow tk) (before_dosing tk w) = Inr ch3"
  shows "chan (update_process tk w) = update_process_thermal (before_thermal tk w ch3)"
    and "raised (update_process tk w) = None"
  using assms
  by (simp_all add: update_process_def before_dosing_def before_thermal_def Let_def
      split: prod.split)

lemma before_dosing_fields:
  "cold_in (before_dosing tk w) = cold_in (chan w)"
  "hot_in (before_dosing tk w) = hot_in (chan w)"
  "manual_mode (before_dosing tk w) = manual_mode (chan w)"
  "cal_nut (before_dosing tk w) = cal_nut (chan w)"
  "last_min (before_dosing tk w) = last_min (chan w)"
  "nut_running_until (before_dosing tk w) = nut_running_until (chan w)"
  by (simp_all add: before_dosing_def setpoint_fields)

lemma before_thermal_fields:
  "cold_in (before_thermal tk w ch3) = cold_in ch3"
  "hot_in (before_thermal tk w ch3) = hot_in ch3"
  "manual_mode (before_thermal tk w ch3) = manual_mode ch3"
  by (simp_all add: before_thermal_def temperature_fields schedule_fields)

lemma update_process_flags:
  "(cold_in (chan (update_process tk w)) = cold_in (chan w)
      \<and> hot_in (chan (update_process tk w)) = hot_in (chan w))
   \<or> (\<exists>c. chan (update_process tk w) = update_process_thermal c
           \<and> cold_in c = cold_in (chan w) \<and> hot_in c = hot_in (chan w))"
proof (cases "update_process_dosing (tnow tk) (before_dosing tk w)")
  case (Inl e)
  then show ?thesis
    by (simp add: update_process_raised before_dosing_fields)
next
  case (Inr ch3)
  have "cold_in (before_thermal tk w ch3) = cold_in (chan w)"
    "hot_in (before_thermal tk w ch3) = hot_in (chan w)"
    using dosing_fields [OF Inr] by (simp_all add: before_thermal_fields before_dosing_fields)
  then show ?thesis
    using update_process_returned(1) [OF Inr] by blast
qed

lemma thermal_rule_exclusive:
  assumes "lo < hi" "\<not> (cold_in ch \<and> hot_in ch)"
  shows "\<not> (cold_in (thermal_rule lo hi ch) \<and> hot_in (thermal_rule lo hi ch))"
  using assms by (auto simp: thermal_rule_def cerrar_todo_def Let_def)

lemma thermal_rule_link:
  "update_process_thermal ch =
     (if manual_mode ch then ch
      else thermal_rule (sp ch - max 0.05 (band ch)) (sp ch + max 0.05 (band ch)) ch)"
  by (simp add: update_process_thermal_def thermal_rule_def Let_def)

lemma perform_exclusive: "exclusive w \<Longrightarrow> exclusive (perform w a)"
proof (cases a)
  case (Update_process tk)
  assume ex: "exclusive w"
  from update_process_flags [of tk w] show ?thesis
  proof
    assume "cold_in (chan (update_process tk w)) = cold_in (chan w)
      \<and> hot_in (chan (update_process tk w)) = hot_in (chan w)"
    then show ?thesis using ex Update_process by (simp add: exclusive_def)
  next
    assume "\<exists>c. chan (update_process tk w) = update_process_thermal c
           \<and> cold_in c = cold_in (chan w) \<and> hot_in c = hot_in (chan w)"
    then obtain c where c: "chan (update_process tk w) = update_process_thermal c"
      "cold_in c = cold_in (chan w)" "hot_in c = hot_in (chan w)" by blast
    have "\<not> (cold_in c \<and> hot_in c)" using ex c(2,3) by (simp add: exclusive_def)
    then show ?thesis
      using Update_process thermal_exclusive [of c] by (simp add: exclusive_def c(1))
  qed
qed (auto simp: exclusive_def forzar_frio_def forzar_caliente_def cerrar_todo_def stop_all_def
      apply_nutricion_state_def)

lemma run_exclusive: "exclusive w \<Longrightarrow> exclusive (run w acts)"
  unfolding run_def by (induction acts arbitrary: w) (simp_all add: perform_exclusive)

text \<open>
  C1.  For all temperature, set-point and band combinations: from any state of a
  channel in which \<open>cold_in\<close> and \<open>hot_in\<close> are not both true, whatever its set point,
  band, calendars, mode and temperature, and whatever the hardware and the files, no
  sequence of control ticks, force-cold, force-hot, close-all and stop-all reaches a
  state with both flags true; in particular none does from the state built at start-up,
  where both are off.  Set point, band and temperature are real numbers here.  The
  hysteresis rule keeps the exclusion whenever its lower threshold lies below its upper
  one, and \<open>update_process\<close> evaluates it at \<open>sp - band\<close> and \<open>sp + band\<close> with a band of
  at least 0.05.  With the two thresholds rounded as double arithmetic rounds them, the
  lower one is still below the upper one, and the rule still keeps the exclusion, for
  every set point \<open>s\<close> and band \<open>b\<close> of at least 0.05 with \<open>\<bar>s\<bar> + b\<close> below 2^49.
\<close>

theorem actuators_never_both_on:
  "(\<not> (cold_in (chan w) \<and> hot_in (chan w))
      \<longrightarrow> \<not> (cold_in (chan (run w acts)) \<and> hot_in (chan (run w acts))))
   \<and> \<not> (cold_in (chan (run \<lparr>hw = h, files = fs, backup_path = bp,
                              chan = init_channel nm idx t0 amb tstart path,
                              raised = None\<rparr> acts))
          \<and> hot_in (chan (run \<lparr>hw = h, files = fs, backup_path = bp,
                              chan = init_channel nm idx t0 amb tstart path,
                              raised = None\<rparr> acts)))
   \<and> (lo < hi \<and> \<not> (cold_in ch \<and> hot_in ch)
      \<longrightarrow> \<not> (cold_in (thermal_rule lo hi ch) \<and> hot_in (thermal_rule lo hi ch)))
   \<and> update_process_thermal ch =
       (if manual_mode ch then ch
        else thermal_rule (sp ch - max 0.05 (band ch)) (sp ch + max 0.05 (band ch)) ch)
   \<and> (1 / 20 \<le> b \<and> \<bar>s\<bar> + b < 2 ^ 49 \<and> \<not> (cold_in ch \<and> hot_in ch)
      \<longrightarrow> fl (s - b) < fl (s + b)
          \<and> \<not> (cold_in (thermal_rule (fl (s - b)) (fl (s + b)) ch)
                \<and> hot_in (thermal_rule (fl (s - b)) (fl (s + b)) ch)))"
proof -
  have a: "\<not> (cold_in (chan (run w acts)) \<and> hot_in (chan (run w acts)))"
    if "\<not> (cold_in (chan w) \<and> hot_in (chan w))"
    using run_exclusive [of w acts] that unfolding exclusive_def by blast
  have "exclusive \<lparr>hw = h, files = fs, backup_path = bp,
                   chan = init_channel nm idx t0 amb tstart path, raised = None\<rparr>"
    by (simp add: exclusive_def init_channel_def)
  then have "exclusive (run \<lparr>hw = h, files = fs, backup_path = bp,
                   chan = init_channel nm idx t0 amb tstart path, raised = None\<rparr> acts)"
    by (rule run_exclusive)
  then have b: "\<not> (cold_in (chan (run \<lparr>hw = h, files = fs, backup_path = bp,
                              chan = init_channel nm idx t0 amb tstart path,
                              raised = None\<rparr> acts))
          \<and> hot_in (chan (run \<lparr>hw = h, files = fs, backup_path = bp,
                              chan = init_channel nm idx t0 amb tstart path,
                              raised = None\<rparr> acts)))"
    unfolding exclusive_def .
  have c: "\<not> (cold_in (thermal_rule lo hi ch) \<and> hot_in (thermal_rule lo hi ch))"
    if "lo < hi" "\<not> (cold_in ch \<and> hot_in ch)"
    using that by (rule thermal_rule_exclusive)
  note d = thermal_rule_link [of ch]
  have e: "fl (s - b) < fl (s + b)
          \<and> \<not> (cold_in (thermal_rule (fl (s - b)) (fl (s + b)) ch)
                \<and> hot_in (thermal_rule (fl (s - b)) (fl (s + b)) ch))"
    if "1 / 20 \<le> b" "\<bar>s\<bar> + b < 2 ^ 49" "\<not> (cold_in ch \<and> hot_in ch)"
    using thresholds_separate [OF that(1,2)]
      thermal_rule_exclusive [OF thresholds_separate [OF that(1,2)] that(3)]
    by blast
  show ?thesis
    using a b c d e by (intro conjI impI) blast+
qed

theorem actuators_never_both_on_witness:
  "\<not> (cold_in (chan (run warm_world [Update_process warm_tick, Stop_all, Forzar_frio,
                                      Forzar_caliente, Update_process warm_tick]))
      \<and> hot_in (chan (run warm_world [Update_process warm_tick, Stop_all, Forzar_frio,
                                      Forzar_caliente, Update_process warm_tick])))"
proof -
  have "\<not> (cold_in (chan warm_world) \<and> hot_in (chan warm_world))"
    by (simp add: warm_world_def example_channel_def init_channel_def)
  with actuators_never_both_on [of warm_world
      "[Update_process warm_tick, Stop_all, Forzar_frio, Forzar_caliente, Update_process warm_tick]"]
  show ?thesis by blast
qed

lemma oscillate_inside:
  assumes "\<forall>x\<in>set xs. sp ch - band ch < x \<and> x < sp ch + band ch"
  shows "cold_in (oscillate xs ch) = cold_in ch \<and> hot_in (oscillate xs ch) = hot_in ch"
  using assms
proof (induction xs arbitrary: ch)
  case Nil
  show ?case by simp
next
  case (Cons x xs)
  let ?c = "ch\<lparr>t_meas := x\<rparr>"
  have in_band: "sp ?c - band ?c < t_meas ?c" "t_meas ?c < sp ?c + band ?c"
    using Cons.prems by simp_all
  have step: "cold_in (update_process_thermal ?c) = cold_in ch"
    "hot_in (update_process_thermal ?c) = hot_in ch"
    using thermal_inside [OF in_band] by simp_all
  have "\<forall>y\<in>set xs. sp (update_process_thermal ?c) - band (update_process_thermal ?c) < y
          \<and> y < sp (update_process_thermal ?c) + band (update_process_thermal ?c)"
    using Cons.prems by (simp add: thermal_fields)
  from Cons.IH [OF this] show ?case
    by (simp add: step)
qed

text \<open>
  C5. For a channel not in manual override whose measured temperature lies strictly
  between set point - band and set point + band, one evaluation of the hysteresis rule
  leaves \<open>cold_in\<close> and \<open>hot_in\<close> as they were; the same holds for the rule as a whole
  control tick evaluates it (with the temperature and the set point of that tick), and
  a series of temperatures that all lie strictly inside the band never changes the
  actuator flags.
\<close>

theorem hysteresis_memory:
  "(\<not> manual_mode ch \<and> sp ch - band ch < t_meas ch \<and> t_meas ch < sp ch + band ch
      \<longrightarrow> cold_in (update_process_thermal ch) = cold_in ch
          \<and> hot_in (update_process_thermal ch) = hot_in ch)
   \<and> (\<not> manual_mode (chan w)
        \<and> sp (chan (update_process tk w)) - band (chan (update_process tk w))
             < t_meas (chan (update_process tk w))
        \<and> t_meas (chan (update_process tk w))
             < sp (chan (update_process tk w)) + band (chan (update_process tk w))
      \<longrightarrow> cold_in (chan (update_process tk w)) = cold_in (chan w)
          \<and> hot_in (chan (update_process tk w)) = hot_in (chan w))
   \<and> (\<not> manual_mode ch \<and> (\<forall>x\<in>set xs. sp ch - band ch < x \<and> x < sp ch + band ch)
      \<longrightarrow> cold_in (oscillate xs ch) = cold_in ch \<and> hot_in (oscillate xs ch) = hot_in ch)"
proof -
  have a: "cold_in (update_process_thermal ch) = cold_in ch
          \<and> hot_in (update_process_thermal ch) = hot_in ch"
    if "sp ch - band ch < t_meas ch" "t_meas ch < sp ch + band ch"
    using thermal_inside [OF that] by simp
  have b: "cold_in (chan (update_process tk w)) = cold_in (chan w)
          \<and> hot_in (chan (update_process tk w)) = hot_in (chan w)"
    if "sp (chan (update_process tk w)) - band (chan (update_process tk w))
             < t_meas (chan (update_process tk w))"
      "t_meas (chan (update_process tk w))
             < sp (chan (update_process tk w)) + band (chan (update_process tk w))"
  proof -
    from update_process_flags [of tk w] show ?thesis
    proof
      assume "cold_in (chan (update_process tk w)) = cold_in (chan w)
        \<and> hot_in (chan (update_process tk w)) = hot_in (chan w)"
      then show ?thesis .
    next
      assume "\<exists>c. chan (update_process tk w) = update_process_thermal c
             \<and> cold_in c = cold_in (chan w) \<and> hot_in c = hot_in (chan w)"
      then obtain c where c: "chan (update_process tk w) = update_process_thermal c"
        "cold_in c = cold_in (chan w)" "hot_in c = hot_in (chan w)" by blast
      have "sp c - band c < t_meas c" "t_meas c < sp c + band c"
        using that by (simp_all add: c(1) thermal_fields)
      from thermal_inside [OF this] show ?thesis
        by (simp add: c)
    qed
  qed
  have c: "cold_in (oscillate xs ch) = cold_in ch \<and> hot_in (oscillate xs ch) = hot_in ch"
    if "\<forall>x\<in>set xs. sp ch - band ch < x \<and> x < sp ch + band ch"
    using that by (rule oscillate_inside)
  from a b c show ?thesis by blast
qed

theorem hysteresis_memory_witness:
  "cold_in (update_process_thermal (example_channel\<lparr>cold_in := True, t_meas := 20.3\<rparr>))
   \<and> \<not> hot_in (update_process_thermal (example_channel\<lparr>cold_in := True, t_meas := 20.3\<rparr>))
   \<and> cold_in (oscillate [19.6, 20.4, 19.9] (example_channel\<lparr>cold_in := True, t_meas := 20.3\<rparr>))
   \<and> \<not> hot_in (oscillate [19.6, 20.4, 19.9] (example_channel\<lparr>cold_in := True, t_meas := 20.3\<rparr>))"
  using hysteresis_memory [of "example_channel\<lparr>cold_in := True, t_meas := 20.3\<rparr>" _ _
      "[19.6, 20.4, 19.9]"]
  by (simp add: example_channel_def init_channel_def)

subsection \<open>Instants and their rendering\<close>

lemma floor_mk: "\<lfloor>mk_datetime d h m s\<rfloor> = (d - 1) * 86400 + int (h * 3600 + m * 60 + s)"
proof -
  have "mk_datetime d h m s = of_int ((d - 1) * 86400 + int (h * 3600 + m * 60 + s))"
    by (simp add: mk_datetime_def)
  then show ?thesis by (simp only: floor_of_int)
qed

lemma mod_aux: "0 \<le> b \<Longrightarrow> b < c \<Longrightarrow> (a * c + b) mod c = (b::int)"
  by simp

lemma hour_mk_datetime:
  assumes "h < 24" "m < 60" "s < 60"
  shows "hour (mk_datetime d h m s) = h"
proof -
  define b where "b = h * 3600 + m * 60 + s"
  have b: "b < 86400" using assms unfolding b_def by linarith
  have "((d - 1) * 86400 + int b) mod 86400 = int b"
    using b by (intro mod_aux) simp_all
  moreover have "b div 3600 = h"
    using assms unfolding b_def by simp
  ultimately show ?thesis
    unfolding hour_def floor_mk b_def [symmetric] by (simp add: zdiv_int [symmetric])
qed

lemma minute_mk_datetime:
  assumes "m < 60" "s < 60"
  shows "minute (mk_datetime d h m s) = m"
proof -
  have "((d - 1) * 86400 + int (h * 3600 + m * 60 + s)) mod 3600 = int (m * 60 + s)"
  proof -
    have "(d - 1) * 86400 + int (h * 3600 + m * 60 + s) = int (m * 60 + s) + ((d - 1) * 24 + int h) * 3600"
      by simp
    moreover have "int (m * 60 + s) < 3600" using assms by linarith
    ultimately show ?thesis by (simp only: mod_mult_self1) simp
  qed
  moreover have "(m * 60 + s) div 60 = m"
    using assms by simp
  ultimately show ?thesis
    unfolding minute_def floor_mk by (simp add: zdiv_int [symmetric] del: of_nat_add of_nat_mult)
qed

lemma date_of_mk_datetime:
  assumes "h < 24" "m < 60" "s < 60"
  shows "date_of (mk_datetime d h m s) = d"
proof -
  have b: "h * 3600 + m * 60 + s < 86400" using assms by linarith
  have "\<lfloor>mk_datetime d h m s / 86400\<rfloor> = \<lfloor>mk_datetime d h m s\<rfloor> div 86400"
    using floor_divide_real_eq_div [of 86400 "mk_datetime d h m s"] by simp
  also have "\<dots> = d - 1"
    unfolding floor_mk using b by simp
  finally show ?thesis by (simp add: date_of_def)
qed

lemma hour_lt: "hour t < 24"
proof -
  have "\<lfloor>t\<rfloor> mod 86400 < 86400" "0 \<le> \<lfloor>t\<rfloor> mod 86400" by simp_all
  then have "(\<lfloor>t\<rfloor> mod 86400) div 3600 < 24" by linarith
  then show ?thesis by (simp add: hour_def)
qed

lemma minute_lt: "minute t < 60"
proof -
  have "\<lfloor>t\<rfloor> mod 3600 < 3600" "0 \<le> \<lfloor>t\<rfloor> mod 3600" by simp_all
  then have "(\<lfloor>t\<rfloor> mod 3600) div 60 < 60" by linarith
  then show ?thesis by (simp add: minute_def)
qed

lemma digit_char_simps:
  "digit_char 0 = CHR ''0''" "digit_char 1 = CHR ''1''" "digit_char 2 = CHR ''2''"
  "digit_char 3 = CHR ''3''" "digit_char 4 = CHR ''4''" "digit_char 5 = CHR ''5''"
  "digit_char 6 = CHR ''6''" "digit_char 7 = CHR ''7''" "digit_char 8 = CHR ''8''"
  "digit_char 9 = CHR ''9''" "digit_char (Suc 0) = CHR ''1''"
  by code_simp+

lemma dec_small: "n < 10 \<Longrightarrow> dec n = [digit_char n]"
  by (simp add: dec.simps)

lemma dec_two: "10 \<le> n \<Longrightarrow> n < 100 \<Longrightarrow> dec n = [digit_char (n div 10), digit_char (n mod 10)]"
  by (subst dec.simps) (simp add: dec_small)

lemma pad2_eq: "n < 100 \<Longrightarrow> pad2 n = [digit_char (n div 10), digit_char (n mod 10)]"
  by (simp add: pad2_def dec_small dec_two digit_char_simps)

lemma length_strftime_HM: "length (strftime_HM t) = 5"
  using hour_lt [of t] minute_lt [of t] by (simp add: strftime_HM_def pad2_eq)

subsection \<open>Decimal strings and the time validator\<close>

lemma of_char_digit_char: "d < 10 \<Longrightarrow> (of_char (digit_char d) :: nat) = 48 + d"
  by (simp add: digit_char_def)

lemma digit_char_props:
  assumes "d < 10"
  shows "is_digit (digit_char d)" "digit_val (digit_char d) = d" "\<not> is_space (digit_char d)"
    "digit_char d \<noteq> CHR '':''" "digit_char d \<noteq> CHR ''+''" "digit_char d \<noteq> CHR ''-''"
proof -
  note oc = of_char_digit_char [OF assms]
  show "is_digit (digit_char d)"
    using assms by (simp add: is_digit_def less_eq_char_def oc)
  show "digit_val (digit_char d) = d"
    by (simp add: digit_val_def oc)
  show "\<not> is_space (digit_char d)"
    using assms by (simp add: is_space_def oc)
  have "(of_char (digit_char d) :: nat) \<noteq> of_char CHR '':''"
    "(of_char (digit_char d) :: nat) \<noteq> of_char CHR ''+''"
    "(of_char (digit_char d) :: nat) \<noteq> of_char CHR ''-''"
    using assms by (simp_all add: oc)
  then show "digit_char d \<noteq> CHR '':''" "digit_char d \<noteq> CHR ''+''" "digit_char d \<noteq> CHR ''-''"
    by auto
qed

lemma dec_chars: "c \<in> set (dec n) \<Longrightarrow> \<exists>d<10. c = digit_char d"
proof (induction n rule: dec.induct)
  case (1 n)
  show ?case
  proof (cases "n < 10")
    case True
    with "1.prems" show ?thesis by (auto simp: dec_small)
  next
    case False
    then have "dec n = dec (n div 10) @ [digit_char (n mod 10)]"
      by (subst dec.simps) simp
    with "1.prems" have "c \<in> set (dec (n div 10)) \<or> c = digit_char (n mod 10)" by auto
    then show ?thesis
    proof
      assume "c \<in> set (dec (n div 10))"
      with False "1.IH" show ?thesis by simp
    next
      assume "c = digit_char (n mod 10)"
      moreover have "n mod 10 < 10" by simp
      ultimately show ?thesis by blast
    qed
  qed
qed

lemma dec_nonempty: "dec n \<noteq> []"
  by (subst dec.simps) simp


lemma py_digits_acc_digits:
  "\<forall>c\<in>set cs. is_digit c \<Longrightarrow> py_digits_acc a cs = Some (digits_value a cs)"
  by (induction cs arbitrary: a) (simp_all add: digits_value_def)

lemma digits_value_dec: "digits_value 0 (dec n) = n"
proof (induction n rule: dec.induct)
  case (1 n)
  show ?case
  proof (cases "n < 10")
    case True
    then show ?thesis by (simp add: dec_small digits_value_def digit_char_props)
  next
    case False
    then have "dec n = dec (n div 10) @ [digit_char (n mod 10)]"
      by (subst dec.simps) simp
    moreover have "digits_value 0 (dec (n div 10)) = n div 10"
      using False "1.IH" by simp
    ultimately show ?thesis
      using digit_char_props(2) [of "n mod 10"]
      by (simp add: digits_value_def)
  qed
qed

lemma all_digits_dec: "\<forall>c\<in>set (dec n). is_digit c"
  using dec_chars digit_char_props(1) by blast

lemma dropWhile_none: "\<forall>c\<in>set xs. \<not> P c \<Longrightarrow> dropWhile P xs = xs"
  by (cases xs) auto

lemma split_on_no_sep: "sep \<notin> set xs \<Longrightarrow> split_on sep xs = [xs]"
  by (induction xs) auto

lemma split_on_append: "sep \<notin> set xs \<Longrightarrow> split_on sep (xs @ sep # ys) = xs # split_on sep ys"
  by (induction xs) auto

lemma length_dec: "n < 10 \<Longrightarrow> length (dec n) = 1" "n < 100 \<Longrightarrow> length (dec n) \<le> 2"
  by (simp add: dec_small) (cases "n < 10"; simp add: dec_small dec_two)

lemma first_digit_lt_8:
  assumes "h < 24"
  shows "pad2 h @ '':'' @ pad2 m < ''8:00''"
proof -
  have "h div 10 \<in> {0, 1, 2}" using assms by auto
  then have "digit_char (h div 10) < CHR ''8''"
    by (auto simp: digit_char_simps)
  then show ?thesis
    using assms by (simp add: pad2_eq)
qed

lemma is_digit_range: "is_digit c \<longleftrightarrow> 48 \<le> (of_char c :: nat) \<and> (of_char c :: nat) \<le> 57"
  by (simp add: is_digit_def less_eq_char_def)

lemma is_digit_props:
  assumes "is_digit c"
  shows "\<not> is_space c" "c \<noteq> CHR '':''" "c \<noteq> CHR ''+''" "c \<noteq> CHR ''-''"
proof -
  have r: "48 \<le> (of_char c :: nat)" "(of_char c :: nat) \<le> 57"
    using assms by (simp_all add: is_digit_range)
  show "\<not> is_space c" using r by (auto simp: is_space_def)
  have "(of_char c :: nat) \<noteq> of_char CHR '':''" "(of_char c :: nat) \<noteq> of_char CHR ''+''"
    "(of_char c :: nat) \<noteq> of_char CHR ''-''"
    using r by simp_all
  then show "c \<noteq> CHR '':''" "c \<noteq> CHR ''+''" "c \<noteq> CHR ''-''" by auto
qed

lemma py_int_digits:
  assumes "ds \<noteq> []" "\<forall>c\<in>set ds. is_digit c"
  shows "py_int ds = Inr (int (digits_value 0 ds))"
proof -
  obtain c cs where cs: "ds = c # cs"
    using assms(1) by (cases ds) auto
  have d: "is_digit c" "\<forall>x\<in>set cs. is_digit x"
    using assms(2) cs by auto
  have ns: "\<forall>x\<in>set ds. \<not> is_space x"
    using assms(2) is_digit_props(1) by blast
  have "dropWhile is_space ds = ds"
    using ns by (rule dropWhile_none)
  moreover have "dropWhile is_space (rev ds) = rev ds"
    using ns by (intro dropWhile_none) simp
  ultimately have st: "strip ds = c # cs"
    by (simp add: strip_def cs)
  have "py_digits (c # cs) = py_digits_acc (digit_val c) cs"
    using d by (simp add: py_digits_def)
  also have "\<dots> = Some (digits_value (digit_val c) cs)"
    using d by (simp add: py_digits_acc_digits)
  also have "digits_value (digit_val c) cs = digits_value 0 ds"
    by (simp add: cs digits_value_def)
  finally have dg: "py_digits (c # cs) = Some (digits_value 0 ds)" .
  have sign: "c \<noteq> CHR ''+''" "c \<noteq> CHR ''-''"
    using d(1) by (rule is_digit_props)+
  show ?thesis
    unfolding py_int_def st using sign by (simp only: dg list.case option.case if_False)
qed

lemma pad2_digits: "\<forall>c\<in>set (pad2 n). is_digit c"
  using all_digits_dec [of n] by (simp add: pad2_def is_digit_def)

lemma pad2_value: "digits_value 0 (pad2 n) = n"
  using digits_value_dec [of n] by (simp add: pad2_def digits_value_def digit_val_def)

lemma rendered:
  assumes "s \<in> {dec n, pad2 n}"
  shows "py_int s = Inr (int n)" "CHR '':'' \<notin> set s"
proof -
  have "pad2 n \<noteq> []" using dec_nonempty [of n] by (simp add: pad2_def)
  then have ne: "s \<noteq> []" using assms dec_nonempty [of n] by auto
  have dg: "\<forall>c\<in>set s. is_digit c"
    using assms all_digits_dec [of n] pad2_digits [of n] by auto
  have "digits_value 0 s = n"
    using assms digits_value_dec [of n] pad2_value [of n] by auto
  then show "py_int s = Inr (int n)"
    using py_int_digits [OF ne dg] by simp
  show "CHR '':'' \<notin> set s"
    using dg is_digit_props(2) by blast
qed

lemma hhmm_ok_rendered:
  assumes "h \<le> 23" "m \<le> 59" "hs \<in> {dec h, pad2 h}" "ms \<in> {dec m, pad2 m}"
  shows "hhmm_ok (hs @ '':'' @ ms)"
  using assms(1,2) rendered [OF assms(3)] rendered [OF assms(4)]
  by (simp add: hhmm_ok_def split_on_append split_on_no_sep)

lemma length_rendered:
  assumes "n < 100" "s \<in> {dec n, pad2 n}"
  shows "length s \<le> 2"
  using assms length_dec(2) [of n] by (auto simp: pad2_eq)

lemma length_ne_5_never_now: "length tm \<noteq> 5 \<Longrightarrow> strftime_HM t \<noteq> tm"
  using length_strftime_HM [of t] by auto

subsection \<open>Calendar lookups\<close>

lemma sorted_le_last: "sorted zs \<Longrightarrow> z \<in> set zs \<Longrightarrow> z \<le> last zs"
  by (induction zs) (auto split: if_splits)

lemma last_sort_key_max:
  assumes "xs \<noteq> []"
  shows "last (sort_key f xs) \<in> set xs"
    and "\<forall>x\<in>set xs. f x \<le> f (last (sort_key f xs))"
proof -
  let ?ys = "sort_key f xs"
  have ne: "?ys \<noteq> []" using assms by (metis set_sort set_empty)
  then have "last ?ys \<in> set ?ys" by (rule last_in_set)
  then show "last ?ys \<in> set xs" by simp
  have srt: "sorted (map f ?ys)" by (rule sorted_sort_key)
  show "\<forall>x\<in>set xs. f x \<le> f (last ?ys)"
  proof
    fix x assume "x \<in> set xs"
    then have "f x \<in> set (map f ?ys)" by simp
    with srt have "f x \<le> last (map f ?ys)"
      by (rule sorted_le_last)
    then show "f x \<le> f (last ?ys)" using ne by (simp add: last_map)
  qed
qed

lemma sp_lookup_unfold:
  "sp_from_date_calendar (Some cal) t dflt =
     (let todays = filter (\<lambda>e. ev_time e \<noteq> [] \<and> ev_time e \<le> strftime_HM t)
                     (dict_get cal (ymd (date_of t)))
      in if todays = [] then dflt else Some (ev_value (last (sort_key ev_time todays))))"
  by (auto simp: sp_from_date_calendar_def dict_get_def Let_def)

lemma sp_lookup_general:
  assumes times: "\<forall>e\<in>set (dict_get cal (ymd (date_of t))). ev_time e \<noteq> []"
  shows "((\<forall>e\<in>set (dict_get cal (ymd (date_of t))). \<not> ev_time e \<le> strftime_HM t)
            \<longrightarrow> sp_from_date_calendar (Some cal) t dflt = dflt)
       \<and> ((\<exists>e\<in>set (dict_get cal (ymd (date_of t))). ev_time e \<le> strftime_HM t)
            \<longrightarrow> (\<exists>e\<in>set (dict_get cal (ymd (date_of t))).
                   ev_time e \<le> strftime_HM t
                   \<and> sp_from_date_calendar (Some cal) t dflt = Some (ev_value e)
                   \<and> (\<forall>e'\<in>set (dict_get cal (ymd (date_of t))).
                         ev_time e' \<le> strftime_HM t \<longrightarrow> ev_time e' \<le> ev_time e)))
       \<and> (dict_get cal' (ymd (date_of t)) = dict_get cal (ymd (date_of t))
            \<longrightarrow> sp_from_date_calendar (Some cal') t dflt
                  = sp_from_date_calendar (Some cal) t dflt)"
proof -
  let ?es = "dict_get cal (ymd (date_of t))"
  let ?hm = "strftime_HM t"
  let ?todays = "filter (\<lambda>e. ev_time e \<noteq> [] \<and> ev_time e \<le> ?hm) ?es"
  have todays: "set ?todays = {e \<in> set ?es. ev_time e \<le> ?hm}"
    using times by auto
  have a: "sp_from_date_calendar (Some cal) t dflt = dflt"
    if "\<forall>e\<in>set ?es. \<not> ev_time e \<le> ?hm"
  proof -
    have "set ?todays = {}" using that todays by auto
    then have "?todays = []" by (simp only: set_empty)
    then show ?thesis by (simp add: sp_lookup_unfold)
  qed
  have b: "\<exists>e\<in>set ?es. ev_time e \<le> ?hm
             \<and> sp_from_date_calendar (Some cal) t dflt = Some (ev_value e)
             \<and> (\<forall>e'\<in>set ?es. ev_time e' \<le> ?hm \<longrightarrow> ev_time e' \<le> ev_time e)"
    if "\<exists>e\<in>set ?es. ev_time e \<le> ?hm"
  proof -
    have ne: "?todays \<noteq> []" using that todays by (metis (mono_tags, lifting) empty_iff mem_Collect_eq set_empty)
    let ?w = "last (sort_key ev_time ?todays)"
    have w: "?w \<in> set ?todays" and mx: "\<forall>x\<in>set ?todays. ev_time x \<le> ev_time ?w"
      using last_sort_key_max [OF ne, of ev_time] by blast+
    have res: "sp_from_date_calendar (Some cal) t dflt = Some (ev_value ?w)"
      using ne by (simp add: sp_lookup_unfold)
    have "?w \<in> set ?es" "ev_time ?w \<le> ?hm" using w todays by blast+
    moreover have "\<forall>e'\<in>set ?es. ev_time e' \<le> ?hm \<longrightarrow> ev_time e' \<le> ev_time ?w"
      using mx todays by blast
    ultimately show ?thesis using res by blast
  qed
  have c: "sp_from_date_calendar (Some cal') t dflt = sp_from_date_calendar (Some cal) t dflt"
    if "dict_get cal' (ymd (date_of t)) = dict_get cal (ymd (date_of t))"
    by (simp only: sp_lookup_unfold that)
  from a b c show ?thesis by blast
qed

lemma ymd_example_day: "ymd example_day = ''2024-03-10''" "ymd (example_day + 1) = ''2024-03-11''"
  unfolding example_day_def by code_simp+

lemma strftime_HM_mk:
  "h < 24 \<Longrightarrow> m < 60 \<Longrightarrow> s < 60 \<Longrightarrow> strftime_HM (mk_datetime d h m s) = pad2 h @ '':'' @ pad2 m"
  by (simp add: strftime_HM_def hour_mk_datetime minute_mk_datetime)

lemma pad2_examples:
  "pad2 7 = ''07''" "pad2 59 = ''59''" "pad2 13 = ''13''" "pad2 0 = ''00''" "pad2 14 = ''14''"
  "pad2 9 = ''09''" "pad2 10 = ''10''"
  by (simp_all add: pad2_eq digit_char_simps)

lemma sp_examples:
  "sp_from_date_calendar (Some [(ymd D, sp_events)]) (mk_datetime D 7 59 0) dflt = dflt"
  "sp_from_date_calendar (Some [(ymd D, sp_events)]) (mk_datetime D 13 0 0) dflt = Some 20"
  "sp_from_date_calendar (Some [(ymd D, sp_events)]) (mk_datetime D 14 0 0) dflt = Some 25"
  "sp_from_date_calendar (Some [(ymd example_day, sp_events)])
     (mk_datetime (example_day + 1) 7 0 0) dflt = dflt"
  by (simp_all add: sp_lookup_unfold dict_get_def date_of_mk_datetime strftime_HM_mk
      pad2_examples sp_events_def ymd_example_day)

text \<open>
  C6. Events carry a time of day (every entry of a calendar passed \<open>hhmm_ok\<close>, so its
  time is not the empty string); times are compared as strings.  For every calendar and
  instant \<open>t\<close>, the set-point lookup reads only the events stored under the date of \<open>t\<close>:
  when none of them has a time at or before the time of \<open>t\<close> it returns the default,
  otherwise it returns the value of one of them whose time is at or before the time of
  \<open>t\<close> and is the greatest such; two calendars with the same events on the date of \<open>t\<close>
  give the same result, and no calendar gives the default.  With the events (08:00,
  20.0) and (14:00, 25.0) on a date D the result is the default at D 07:59, 20.0 at
  D 13:00 and 25.0 at D 14:00; with D = 2024-03-10 the result at 07:00 of the next day is
  the default.
\<close>

theorem sp_from_date_calendar_latest:
  "((\<forall>e\<in>set (dict_get cal (ymd (date_of t))). ev_time e \<noteq> []) \<longrightarrow>
       ((\<forall>e\<in>set (dict_get cal (ymd (date_of t))). \<not> ev_time e \<le> strftime_HM t)
            \<longrightarrow> sp_from_date_calendar (Some cal) t dflt = dflt)
       \<and> ((\<exists>e\<in>set (dict_get cal (ymd (date_of t))). ev_time e \<le> strftime_HM t)
            \<longrightarrow> (\<exists>e\<in>set (dict_get cal (ymd (date_of t))).
                   ev_time e \<le> strftime_HM t
                   \<and> sp_from_date_calendar (Some cal) t dflt = Some (ev_value e)
                   \<and> (\<forall>e'\<in>set (dict_get cal (ymd (date_of t))).
                         ev_time e' \<le> strftime_HM t \<longrightarrow> ev_time e' \<le> ev_time e))))
   \<and> (dict_get cal' (ymd (date_of t)) = dict_get cal (ymd (date_of t))
            \<longrightarrow> sp_from_date_calendar (Some cal') t dflt
                  = sp_from_date_calendar (Some cal) t dflt)
   \<and> sp_from_date_calendar None t dflt = dflt
   \<and> sp_from_date_calendar (Some [(ymd D, sp_events)]) (mk_datetime D 7 59 0) dflt = dflt
   \<and> sp_from_date_calendar (Some [(ymd D, sp_events)]) (mk_datetime D 13 0 0) dflt = Some 20
   \<and> sp_from_date_calendar (Some [(ymd D, sp_events)]) (mk_datetime D 14 0 0) dflt = Some 25
   \<and> sp_from_date_calendar (Some [(ymd example_day, sp_events)])
         (mk_datetime (example_day + 1) 7 0 0) dflt = dflt"
proof -
  have n: "sp_from_date_calendar None t dflt = dflt"
    by (simp add: sp_from_date_calendar_def)
  have c: "dict_get cal' (ymd (date_of t)) = dict_get cal (ymd (date_of t))
            \<longrightarrow> sp_from_date_calendar (Some cal') t dflt
                  = sp_from_date_calendar (Some cal) t dflt"
    by (simp add: sp_lookup_unfold)
  show ?thesis
    using sp_lookup_general [of cal t dflt cal] n c sp_examples(1-3) [of D dflt]
      sp_examples(4) [of dflt]
    by (intro conjI impI) blast+
qed

theorem sp_from_date_calendar_latest_witness:
  "sp_from_date_calendar (Some [(ymd example_day, sp_events)]) (mk_datetime example_day 13 0 0)
     None = Some 20"
proof -
  let ?cal = "[(ymd example_day, sp_events)]"
  let ?t = "mk_datetime example_day 13 0 0"
  have es: "dict_get ?cal (ymd (date_of ?t)) = sp_events"
    by (simp add: dict_get_def date_of_mk_datetime)
  have hm: "strftime_HM ?t = ''13:00''"
    by (simp add: strftime_HM_mk pad2_examples)
  have h: "\<forall>e\<in>set (dict_get ?cal (ymd (date_of ?t))). ev_time e \<noteq> []"
    unfolding es by (simp add: sp_events_def)
  have ex: "\<exists>e\<in>set (dict_get ?cal (ymd (date_of ?t))). ev_time e \<le> strftime_HM ?t"
    unfolding es hm by (simp add: sp_events_def)
  from sp_from_date_calendar_latest [of ?cal ?t None] h ex
  obtain e where "e \<in> set sp_events" "ev_time e \<le> ''13:00''"
    "sp_from_date_calendar (Some ?cal) ?t None = Some (ev_value e)"
    unfolding es hm by blast
  then show ?thesis by (auto simp: sp_events_def)
qed

lemma nut_fire_unfold:
  "nut_fire_for_minute (Some cal) t =
     map ev_value (filter (\<lambda>e. ev_time e = strftime_HM t) (dict_get cal (ymd (date_of t))))"
  by (auto simp: nut_fire_for_minute_def dict_get_def Let_def)

lemma dict_get_without_time:
  "dict_get (without_time tm cal) key = filter (\<lambda>e. ev_time e \<noteq> tm) (dict_get cal key)"
  by (simp add: dict_get_def without_time_def map_of_map split: option.split)

lemma nut_fire_without_time:
  assumes "strftime_HM t \<noteq> tm"
  shows "nut_fire_for_minute (Some (without_time tm cal)) t = nut_fire_for_minute (Some cal) t"
proof -
  have "filter (\<lambda>e. ev_time e = strftime_HM t) (filter (\<lambda>e. ev_time e \<noteq> tm) es)
          = filter (\<lambda>e. ev_time e = strftime_HM t) es" for es :: "event list"
    using assms by (induction es) auto
  then show ?thesis
    by (simp only: nut_fire_unfold dict_get_without_time)
qed

lemma strftime_HM_lt_8: "strftime_HM t < ''8:00''"
  unfolding strftime_HM_def using hour_lt [of t] by (rule first_digit_lt_8)

lemma dec_examples: "dec 8 = ''8''" "dec 0 = ''0''" "dec 5 = ''5''"
  by (simp_all add: dec_small digit_char_simps)

text \<open>
  C10. The validator \<open>hhmm_ok\<close> accepts an hour from 0 to 23 and a minute from 0 to 59
  whether or not each is padded to two digits, so it accepts \<open>8:00\<close>.  When the hour or
  the minute is a single digit, the string differs from the zero-padded \<open>%H:%M\<close>
  rendering of every instant, and the exact-minute dosing lookup gives, at every
  instant, what it gives on the calendar without the events stored at that time: they
  are never returned.  Strings are compared character by character, so every padded
  time from 10:00 to 23:59 (indeed the time of every instant) is smaller than \<open>8:00\<close>,
  and a set-point event stored at \<open>8:00\<close> is never applicable.
\<close>

theorem unpadded_times:
  "(h \<le> 23 \<and> m \<le> 59 \<and> hs \<in> {dec h, pad2 h} \<and> ms \<in> {dec m, pad2 m}
      \<longrightarrow> hhmm_ok (hs @ '':'' @ ms))
   \<and> hhmm_ok ''8:00''
   \<and> (h \<le> 23 \<and> m \<le> 59 \<and> hs \<in> {dec h, pad2 h} \<and> ms \<in> {dec m, pad2 m}
        \<and> (h < 10 \<and> hs = dec h \<or> m < 10 \<and> ms = dec m)
      \<longrightarrow> strftime_HM t \<noteq> hs @ '':'' @ ms
          \<and> nut_fire_for_minute (Some cal) t
              = nut_fire_for_minute (Some (without_time (hs @ '':'' @ ms) cal)) t)
   \<and> nut_fire_for_minute (Some cal) t
        = nut_fire_for_minute (Some (without_time ''8:00'' cal)) t
   \<and> (10 \<le> h \<and> h \<le> 23 \<and> m \<le> 59 \<longrightarrow> pad2 h @ '':'' @ pad2 m < ''8:00'')
   \<and> \<not> ''8:00'' \<le> strftime_HM t
   \<and> sp_from_date_calendar (Some [(ymd (date_of t), [\<lparr>ev_time = ''8:00'', ev_value = v\<rparr>])]) t
         dflt = dflt"
proof -
  have a: "hhmm_ok (hs @ '':'' @ ms)"
    if "h \<le> 23" "m \<le> 59" "hs \<in> {dec h, pad2 h}" "ms \<in> {dec m, pad2 m}"
    using that by (rule hhmm_ok_rendered)
  have a8: "hhmm_ok ''8:00''"
    using hhmm_ok_rendered [of 8 0 "dec 8" "pad2 0"] by (simp add: dec_examples pad2_examples)
  have b: "strftime_HM t \<noteq> hs @ '':'' @ ms
         \<and> nut_fire_for_minute (Some cal) t
             = nut_fire_for_minute (Some (without_time (hs @ '':'' @ ms) cal)) t"
    if "h \<le> 23" "m \<le> 59" "hs \<in> {dec h, pad2 h}" "ms \<in> {dec m, pad2 m}"
      "h < 10 \<and> hs = dec h \<or> m < 10 \<and> ms = dec m"
  proof -
    have "length hs \<le> 2" "length ms \<le> 2"
      using that(1-4) length_rendered [of h hs] length_rendered [of m ms] by simp_all
    moreover have "length hs = 1 \<or> length ms = 1"
      using that(5) length_dec(1) by auto
    ultimately have "length (hs @ '':'' @ ms) \<noteq> 5" by auto
    then have ne: "strftime_HM t \<noteq> hs @ '':'' @ ms"
      by (rule length_ne_5_never_now)
    then show ?thesis
      using nut_fire_without_time [OF ne, of cal] by simp
  qed
  have "strftime_HM t \<noteq> ''8:00''"
    by (rule length_ne_5_never_now) simp
  then have b8: "nut_fire_for_minute (Some cal) t
        = nut_fire_for_minute (Some (without_time ''8:00'' cal)) t"
    using nut_fire_without_time [of t "''8:00''" cal] by simp
  have c: "pad2 h @ '':'' @ pad2 m < ''8:00''" if "h \<le> 23"
    using that by (intro first_digit_lt_8) simp
  have d: "\<not> ''8:00'' \<le> strftime_HM t"
    using strftime_HM_lt_8 [of t] by simp
  have e: "sp_from_date_calendar (Some [(ymd (date_of t), [\<lparr>ev_time = ''8:00'', ev_value = v\<rparr>])]) t
         dflt = dflt"
    using d by (simp add: sp_lookup_unfold dict_get_def)
  from a a8 b b8 c d e show ?thesis by blast
qed

theorem unpadded_times_witness:
  "hhmm_ok ''8:05''
   \<and> nut_fire_for_minute
         (Some [(ymd example_day, [\<lparr>ev_time = ''8:05'', ev_value = 30\<rparr>])])
         (mk_datetime example_day 8 5 0) = []
   \<and> ''10:00'' < ''8:00''"
proof -
  let ?cal = "[(ymd example_day, [\<lparr>ev_time = ''8:05'', ev_value = 30\<rparr>])]"
  let ?t = "mk_datetime example_day 8 5 0"
  have tm: "dec 8 @ '':'' @ pad2 5 = ''8:05''"
    by (simp add: dec_examples pad2_eq digit_char_simps)
  have hyp: "(8::nat) \<le> 23 \<and> (5::nat) \<le> 59 \<and> dec 8 \<in> {dec 8, pad2 8} \<and> pad2 5 \<in> {dec 5, pad2 5}"
    "(8::nat) < 10 \<and> dec 8 = dec 8 \<or> (5::nat) < 10 \<and> pad2 5 = dec 5"
    by simp_all
  from unpadded_times [of 8 5 "dec 8" "pad2 5" ?t ?cal] hyp
  have ok: "hhmm_ok (dec 8 @ '':'' @ pad2 5)"
    and fire: "nut_fire_for_minute (Some ?cal) ?t
                = nut_fire_for_minute (Some (without_time (dec 8 @ '':'' @ pad2 5) ?cal)) ?t"
    by blast+
  have "nut_fire_for_minute (Some (without_time ''8:05'' ?cal)) ?t = []"
    by (simp add: without_time_def nut_fire_unfold dict_get_def)
  then have 1: "nut_fire_for_minute (Some ?cal) ?t = []"
    using fire unfolding tm by simp
  have "(10::nat) \<le> 10 \<and> (10::nat) \<le> 23 \<and> (0::nat) \<le> 59" by simp
  with unpadded_times [of 10 0] have "pad2 10 @ '':'' @ pad2 0 < ''8:00''" by blast
  then have 2: "''10:00'' < ''8:00''" by (simp add: pad2_examples)
  from ok 1 2 show ?thesis unfolding tm by blast
qed

subsection \<open>Dosing timer\<close>

lemma timedelta_seconds_value:
  assumes "timedelta_seconds x = Inr d"
  shows "d = of_int (round_half_even (x * 1000000)) / 1000000" and "\<bar>d - x\<bar> \<le> 1 / 2000000"
proof -
  show d: "d = of_int (round_half_even (x * 1000000)) / 1000000"
    using assms by (simp add: timedelta_seconds_def Let_def split: if_splits)
  have "\<bar>of_int (round_half_even (x * 1000000)) - x * 1000000\<bar> \<le> 1 / 2"
    by (rule round_half_even_close)
  then show "\<bar>d - x\<bar> \<le> 1 / 2000000"
    unfolding d by (simp add: abs_if field_simps split: if_splits)
qed

lemma datetime_add_value:
  assumes "datetime_add t x = Inr d"
  shows "d = t + of_int (round_half_even (x * 1000000)) / 1000000"
    and "\<bar>d - (t + x)\<bar> \<le> 1 / 2000000"
    and "0 \<le> d" and "d < MAX_DATETIME"
proof -
  obtain td where td: "timedelta_seconds x = Inr td" and d: "d = t + td"
    and r: "0 \<le> t + td" "t + td < MAX_DATETIME"
    using assms by (auto simp: datetime_add_def split: sum.splits if_splits)
  show "d = t + of_int (round_half_even (x * 1000000)) / 1000000"
    using timedelta_seconds_value(1) [OF td] d by simp
  show "\<bar>d - (t + x)\<bar> \<le> 1 / 2000000"
    using timedelta_seconds_value(2) [OF td] d by simp
  show "0 \<le> d" "d < MAX_DATETIME" using r d by simp_all
qed

lemma datetime_add_whole:
  assumes "x * 1000000 = of_int n" "0 \<le> t" "0 \<le> x" "t + x < MAX_DATETIME"
  shows "datetime_add t x = Inr (t + x)"
proof -
  have rn: "round_half_even (x * 1000000) = n"
    by (simp only: assms(1) round_half_even_of_int)
  have x: "x = of_int n / 1000000" using assms(1) by simp
  have "x < MAX_DATETIME" using assms(2,4) by linarith
  then have "of_int n < (315537897600000000 :: real)"
    unfolding x by (simp add: MAX_DATETIME_def)
  then have up: "n < 315537897600000000" by linarith
  have "0 \<le> (of_int n :: real)" using assms(3) unfolding x by simp
  then have lo: "0 \<le> n" by linarith
  have "timedelta_seconds x = Inr x"
    using up lo by (simp add: timedelta_seconds_def x round_half_even_of_int Let_def)
  then show ?thesis
    using assms(2,3,4) by (simp add: datetime_add_def)
qed

lemma dosing_unfold:
  "update_process_dosing now ch =
     (if last_min ch \<noteq> Some (strftime_Ymd_HM now) then
        (if 0 < dur_total now ch
         then (case datetime_add now (dur_total now ch) of
                 Inl e \<Rightarrow> Inl e
               | Inr d \<Rightarrow> Inr (ch\<lparr>nut_running_until := Some d,
                                    last_min := Some (strftime_Ymd_HM now)\<rparr>))
         else Inr (ch\<lparr>last_min := Some (strftime_Ymd_HM now)\<rparr>))
      else Inr ch)"
proof -
  have "dur_total now ch = 0" if "nut_fire_for_minute (Some (cal_nut ch)) now = []"
    using that by (simp add: dur_total_def)
  then show ?thesis
    by (auto simp: update_process_dosing_def Let_def dur_total_def split: sum.splits)
qed

lemma schedule_keeps:
  assumes "nut_running_until ch = Some u" "now < u"
  shows "nut_running_until (update_process_schedule now ch) = Some u"
  using assms
  by (simp add: update_process_schedule_def record_nut_fields apply_nutricion_state_def Let_def)

lemma schedule_clears:
  assumes "nut_running_until ch = Some u" "u \<le> now"
  shows "nut_running_until (update_process_schedule now ch) = None"
  using assms
  by (simp add: update_process_schedule_def record_nut_fields apply_nutricion_state_def Let_def)

lemma dur_total_before_dosing: "dur_total (tnow tk) (before_dosing tk w) = dur_total (tnow tk) (chan w)"
  by (simp add: dur_total_def before_dosing_fields)

lemma dosing_tick:
  assumes "last_min (chan w) \<noteq> Some (strftime_Ymd_HM (tnow tk))"
    and "0 < dur_total (tnow tk) (chan w)"
    and "datetime_add (tnow tk) (dur_total (tnow tk) (chan w)) = Inr d"
  shows "tnow tk < d \<Longrightarrow> nut_running_until (chan (update_process tk w)) = Some d"
    and "d \<le> tnow tk \<Longrightarrow> nut_running_until (chan (update_process tk w)) = None"
    and "raised (update_process tk w) = None"
proof -
  let ?n = "tnow tk"
  let ?c = "before_dosing tk w"
  let ?ch3 = "?c\<lparr>nut_running_until := Some d, last_min := Some (strftime_Ymd_HM ?n)\<rparr>"
  have r: "update_process_dosing ?n ?c = Inr ?ch3"
    using assms by (simp add: dosing_unfold dur_total_before_dosing before_dosing_fields)
  have u: "nut_running_until ?ch3 = Some d" by simp
  have ch: "nut_running_until (chan (update_process tk w))
              = nut_running_until (update_process_schedule ?n ?ch3)"
    by (simp add: update_process_returned(1) [OF r] thermal_fields before_thermal_def
        temperature_fields)
  show "nut_running_until (chan (update_process tk w)) = Some d" if "?n < d"
    using schedule_keeps [OF u that] ch by simp
  show "nut_running_until (chan (update_process tk w)) = None" if "d \<le> ?n"
    using schedule_clears [OF u that] ch by simp
  show "raised (update_process tk w) = None"
    by (rule update_process_returned(2) [OF r])
qed

lemma dosing_tick_raises:
  assumes "last_min (chan w) \<noteq> Some (strftime_Ymd_HM (tnow tk))"
    and "0 < dur_total (tnow tk) (chan w)"
    and "datetime_add (tnow tk) (dur_total (tnow tk) (chan w)) = Inl e"
  shows "raised (update_process tk w) = Some e"
    and "nut_running_until (chan (update_process tk w)) = nut_running_until (chan w)"
    and "last_min (chan (update_process tk w)) = last_min (chan w)"
proof -
  have r: "update_process_dosing (tnow tk) (before_dosing tk w) = Inl e"
    using assms by (simp add: dosing_unfold dur_total_before_dosing before_dosing_fields)
  show "raised (update_process tk w) = Some e"
    by (rule update_process_raised(2) [OF r])
  show "nut_running_until (chan (update_process tk w)) = nut_running_until (chan w)"
    "last_min (chan (update_process tk w)) = last_min (chan w)"
    by (simp_all add: update_process_raised(1) [OF r] before_dosing_fields)
qed

lemma dur_total_nonneg:
  assumes "\<forall>d\<in>set ds. (0::real) \<le> d"
  shows "sum_list (filter (\<lambda>d. d > 0) ds) = sum_list ds"
  using assms by (induction ds) auto

lemma fire_example:
  "nut_fire_for_minute (Some [(ymd D, es)]) (mk_datetime D 9 0 0)
     = map ev_value (filter (\<lambda>e. ev_time e = ''09:00'') es)"
  by (simp add: nut_fire_unfold dict_get_def date_of_mk_datetime strftime_HM_mk pad2_examples)

lemma mk_datetime_range:
  assumes "1 \<le> D" "D \<le> 3652059" "h < 24" "m < 60" "s < 60"
  shows "0 \<le> mk_datetime D h m s" "mk_datetime D h m s < MAX_DATETIME"
proof -
  have b: "real (h * 3600 + m * 60 + s) < 86400" using assms(3-5) by simp
  have lo: "0 \<le> real_of_int ((D - 1) * 86400)" using assms(1) by simp
  show "0 \<le> mk_datetime D h m s"
    using lo by (simp add: mk_datetime_def)
  have "real_of_int ((D - 1) * 86400) \<le> real_of_int (3652058 * 86400)"
    using assms(2) by (simp only: of_int_le_iff) simp
  then show "mk_datetime D h m s < MAX_DATETIME"
    using b by (simp add: mk_datetime_def MAX_DATETIME_def)
qed

text \<open>
  C2 (as amended).  On a minute boundary (the minute of \<open>now\<close> differs from the last
  minute handled) the strictly positive values of the dosing events that fire at that
  minute are summed; negative and zero values are left out, not subtracted.  A positive
  sum \<open>S\<close> is rounded to whole microseconds and added to \<open>now\<close>.  When the sum is a
  \<open>datetime\<close> (before year 10000) it becomes the deadline, whatever the deadline was, and
  the minute is marked as handled; it is \<open>now + S\<close> to within half a microsecond, and
  exactly \<open>now + S\<close> when \<open>S\<close> is a whole number of microseconds.  At the end of the
  control tick that deadline stands when it lies after \<open>now\<close>, and is cleared when \<open>S\<close>
  was rounded to zero.  When the sum is not a \<open>datetime\<close> the addition raises
  \<open>OverflowError\<close>, which leaves \<open>update_process\<close> with the deadline and the last
  handled minute as they were.  A sum that is not positive leaves the deadline as it
  was; within the same minute nothing changes.  When no fired value is negative the sum
  is that of all fired values.  Two events (09:00, 30) and (09:00, 20) on a date D give
  the deadline D 09:00:50 at D 09:00:00.
\<close>

theorem dosing_deadline:
  "(last_min ch \<noteq> Some (strftime_Ymd_HM now) \<and> 0 < dur_total now ch
      \<and> datetime_add now (dur_total now ch) = Inr d
      \<longrightarrow> update_process_dosing now ch
            = Inr (ch\<lparr>nut_running_until := Some d, last_min := Some (strftime_Ymd_HM now)\<rparr>)
          \<and> d = now + of_int (round_half_even (dur_total now ch * 1000000)) / 1000000
          \<and> \<bar>d - (now + dur_total now ch)\<bar> \<le> 1 / 2000000)
   \<and> (last_min ch \<noteq> Some (strftime_Ymd_HM now) \<and> 0 < dur_total now ch
      \<and> datetime_add now (dur_total now ch) = Inl e
      \<longrightarrow> update_process_dosing now ch = Inl e)
   \<and> (last_min ch \<noteq> Some (strftime_Ymd_HM now) \<and> dur_total now ch \<le> 0
      \<longrightarrow> update_process_dosing now ch = Inr (ch\<lparr>last_min := Some (strftime_Ymd_HM now)\<rparr>))
   \<and> (last_min ch = Some (strftime_Ymd_HM now) \<longrightarrow> update_process_dosing now ch = Inr ch)
   \<and> (dur_total now ch * 1000000 = of_int n \<and> 0 \<le> now \<and> 0 < dur_total now ch
      \<and> now + dur_total now ch < MAX_DATETIME
      \<longrightarrow> datetime_add now (dur_total now ch) = Inr (now + dur_total now ch))
   \<and> (last_min (chan w) \<noteq> Some (strftime_Ymd_HM (tnow tk)) \<and> 0 < dur_total (tnow tk) (chan w)
      \<and> datetime_add (tnow tk) (dur_total (tnow tk) (chan w)) = Inr d \<and> tnow tk < d
      \<longrightarrow> nut_running_until (chan (update_process tk w)) = Some d
          \<and> raised (update_process tk w) = None)
   \<and> (last_min (chan w) \<noteq> Some (strftime_Ymd_HM (tnow tk)) \<and> 0 < dur_total (tnow tk) (chan w)
      \<and> datetime_add (tnow tk) (dur_total (tnow tk) (chan w)) = Inr d \<and> d \<le> tnow tk
      \<longrightarrow> nut_running_until (chan (update_process tk w)) = None)
   \<and> (last_min (chan w) \<noteq> Some (strftime_Ymd_HM (tnow tk)) \<and> 0 < dur_total (tnow tk) (chan w)
      \<and> datetime_add (tnow tk) (dur_total (tnow tk) (chan w)) = Inl e
      \<longrightarrow> raised (update_process tk w) = Some e
          \<and> nut_running_until (chan (update_process tk w)) = nut_running_until (chan w)
          \<and> last_min (chan (update_process tk w)) = last_min (chan w))
   \<and> ((\<forall>x\<in>set (nut_fire_for_minute (Some (cal_nut ch)) now). 0 \<le> x)
      \<longrightarrow> dur_total now ch = sum_list (nut_fire_for_minute (Some (cal_nut ch)) now))
   \<and> (1 \<le> D \<and> D \<le> 3652059 \<and> cal_nut ch = [(ymd D, dose_events)]
        \<and> last_min ch \<noteq> Some (strftime_Ymd_HM (mk_datetime D 9 0 0))
      \<longrightarrow> update_process_dosing (mk_datetime D 9 0 0) ch
            = Inr (ch\<lparr>nut_running_until := Some (mk_datetime D 9 0 50),
                       last_min := Some (strftime_Ymd_HM (mk_datetime D 9 0 0))\<rparr>))"
proof -
  have c1: "last_min ch \<noteq> Some (strftime_Ymd_HM now) \<and> 0 < dur_total now ch
      \<and> datetime_add now (dur_total now ch) = Inr d
      \<longrightarrow> update_process_dosing now ch
            = Inr (ch\<lparr>nut_running_until := Some d, last_min := Some (strftime_Ymd_HM now)\<rparr>)
          \<and> d = now + of_int (round_half_even (dur_total now ch * 1000000)) / 1000000
          \<and> \<bar>d - (now + dur_total now ch)\<bar> \<le> 1 / 2000000"
    using datetime_add_value(1,2) [of now "dur_total now ch" d] by (simp add: dosing_unfold)
  have c2: "last_min ch \<noteq> Some (strftime_Ymd_HM now) \<and> 0 < dur_total now ch
      \<and> datetime_add now (dur_total now ch) = Inl e
      \<longrightarrow> update_process_dosing now ch = Inl e"
    by (simp add: dosing_unfold)
  have c3: "last_min ch \<noteq> Some (strftime_Ymd_HM now) \<and> dur_total now ch \<le> 0
      \<longrightarrow> update_process_dosing now ch = Inr (ch\<lparr>last_min := Some (strftime_Ymd_HM now)\<rparr>)"
    by (simp add: dosing_unfold)
  have c4: "last_min ch = Some (strftime_Ymd_HM now) \<longrightarrow> update_process_dosing now ch = Inr ch"
    by (simp add: dosing_unfold)
  have c5: "dur_total now ch * 1000000 = of_int n \<and> 0 \<le> now \<and> 0 < dur_total now ch
      \<and> now + dur_total now ch < MAX_DATETIME
      \<longrightarrow> datetime_add now (dur_total now ch) = Inr (now + dur_total now ch)"
    using datetime_add_whole [of "dur_total now ch" n now] by simp
  have c6: "last_min (chan w) \<noteq> Some (strftime_Ymd_HM (tnow tk)) \<and> 0 < dur_total (tnow tk) (chan w)
      \<and> datetime_add (tnow tk) (dur_total (tnow tk) (chan w)) = Inr d \<and> tnow tk < d
      \<longrightarrow> nut_running_until (chan (update_process tk w)) = Some d
          \<and> raised (update_process tk w) = None"
    using dosing_tick(1,3) [of w tk d] by simp
  have c7: "last_min (chan w) \<noteq> Some (strftime_Ymd_HM (tnow tk)) \<and> 0 < dur_total (tnow tk) (chan w)
      \<and> datetime_add (tnow tk) (dur_total (tnow tk) (chan w)) = Inr d \<and> d \<le> tnow tk
      \<longrightarrow> nut_running_until (chan (update_process tk w)) = None"
    using dosing_tick(2) [of w tk d] by simp
  have c8: "last_min (chan w) \<noteq> Some (strftime_Ymd_HM (tnow tk)) \<and> 0 < dur_total (tnow tk) (chan w)
      \<and> datetime_add (tnow tk) (dur_total (tnow tk) (chan w)) = Inl e
      \<longrightarrow> raised (update_process tk w) = Some e
          \<and> nut_running_until (chan (update_process tk w)) = nut_running_until (chan w)
          \<and> last_min (chan (update_process tk w)) = last_min (chan w)"
    using dosing_tick_raises [of w tk e] by simp
  have c9: "(\<forall>x\<in>set (nut_fire_for_minute (Some (cal_nut ch)) now). 0 \<le> x)
      \<longrightarrow> dur_total now ch = sum_list (nut_fire_for_minute (Some (cal_nut ch)) now)"
    unfolding dur_total_def using dur_total_nonneg by blast
  have c10: "1 \<le> D \<and> D \<le> 3652059 \<and> cal_nut ch = [(ymd D, dose_events)]
        \<and> last_min ch \<noteq> Some (strftime_Ymd_HM (mk_datetime D 9 0 0))
      \<longrightarrow> update_process_dosing (mk_datetime D 9 0 0) ch
            = Inr (ch\<lparr>nut_running_until := Some (mk_datetime D 9 0 50),
                       last_min := Some (strftime_Ymd_HM (mk_datetime D 9 0 0))\<rparr>)"
  proof (intro impI, elim conjE)
    assume D: "1 \<le> D" "D \<le> 3652059" and cal: "cal_nut ch = [(ymd D, dose_events)]"
      and lm: "last_min ch \<noteq> Some (strftime_Ymd_HM (mk_datetime D 9 0 0))"
    have dt: "dur_total (mk_datetime D 9 0 0) ch = 50"
      by (simp add: dur_total_def cal fire_example dose_events_def)
    have eq: "mk_datetime D 9 0 0 + 50 = mk_datetime D 9 0 50"
      by (simp add: mk_datetime_def)
    have "0 \<le> mk_datetime D 9 0 0" "mk_datetime D 9 0 50 < MAX_DATETIME"
      using D by (simp_all add: mk_datetime_range)
    then have "datetime_add (mk_datetime D 9 0 0) 50 = Inr (mk_datetime D 9 0 0 + 50)"
      by (intro datetime_add_whole [where n = 50000000]) (simp_all add: eq)
    then show "update_process_dosing (mk_datetime D 9 0 0) ch
            = Inr (ch\<lparr>nut_running_until := Some (mk_datetime D 9 0 50),
                       last_min := Some (strftime_Ymd_HM (mk_datetime D 9 0 0))\<rparr>)"
      using lm by (simp add: dosing_unfold dt eq)
  qed
  from c1 c2 c3 c4 c5 c6 c7 c8 c9 c10 show ?thesis by - (intro conjI; assumption)
qed

lemma example_day_range: "1 \<le> example_day" "example_day \<le> 3652059"
  by (simp_all add: example_day_def)

lemma dur_total_example:
  "dur_total (mk_datetime example_day 9 0 0) (c\<lparr>cal_nut := [(ymd example_day, es)]\<rparr>)
     = sum_list (filter (\<lambda>d. 0 < d) (map ev_value (filter (\<lambda>e. ev_time e = ''09:00'') es)))"
  by (simp add: dur_total_def fire_example)

lemma datetime_add_tiny:
  "datetime_add (mk_datetime example_day 9 0 0) (1 / 4000000) = Inr (mk_datetime example_day 9 0 0)"
proof -
  have "round_half_even (1 / 4000000 * 1000000) = 0"
    by (simp add: round_half_even_def Let_def)
  then have "timedelta_seconds (1 / 4000000) = Inr 0"
    by (simp add: timedelta_seconds_def Let_def)
  then show ?thesis
    using mk_datetime_range [OF example_day_range, of 9 0 0]
    by (simp add: datetime_add_def)
qed

lemma datetime_add_huge:
  "datetime_add (mk_datetime example_day 9 0 0) 1000000000000 = Inl OverflowError"
proof -
  have "round_half_even (1000000000000 * 1000000) = 1000000000000000000"
    using round_half_even_of_int [of 1000000000000000000] by simp
  then have "timedelta_seconds 1000000000000 = Inr 1000000000000"
    by (simp add: timedelta_seconds_def Let_def)
  moreover have "MAX_DATETIME \<le> mk_datetime example_day 9 0 0 + 1000000000000"
    by (simp add: MAX_DATETIME_def mk_datetime_def example_day_def)
  ultimately show ?thesis
    by (simp add: datetime_add_def)
qed

theorem dosing_deadline_witness:
  "update_process_dosing (mk_datetime example_day 9 0 0)
     (example_channel\<lparr>cal_nut := [(ymd example_day, dose_events)],
                      nut_running_until := Some (mk_datetime example_day 9 30 0)\<rparr>)
   = Inr (example_channel\<lparr>cal_nut := [(ymd example_day, dose_events)],
                          nut_running_until := Some (mk_datetime example_day 9 0 50),
                          last_min := Some (strftime_Ymd_HM (mk_datetime example_day 9 0 0))\<rparr>)
   \<and> nut_running_until
        (chan (update_process warm_tick
                 (warm_world\<lparr>chan := example_channel\<lparr>cal_nut := [(ymd example_day, tiny_dose_events)]\<rparr>\<rparr>)))
       = None
   \<and> update_process_dosing (mk_datetime example_day 9 0 0)
        (example_channel\<lparr>cal_nut := [(ymd example_day, huge_dose_events)]\<rparr>)
       = Inl OverflowError"
proof -
  let ?t = "mk_datetime example_day 9 0 0"
  let ?c1 = "example_channel\<lparr>cal_nut := [(ymd example_day, dose_events)],
                      nut_running_until := Some (mk_datetime example_day 9 30 0)\<rparr>"
  let ?c2 = "example_channel\<lparr>cal_nut := [(ymd example_day, tiny_dose_events)]\<rparr>"
  let ?c3 = "example_channel\<lparr>cal_nut := [(ymd example_day, huge_dose_events)]\<rparr>"
  let ?w = "warm_world\<lparr>chan := ?c2\<rparr>"
  have lm: "last_min ?c1 = None" "last_min ?c2 = None" "last_min ?c3 = None"
    by (simp_all add: example_channel_def init_channel_def)
  have h1: "1 \<le> example_day \<and> example_day \<le> 3652059
      \<and> cal_nut ?c1 = [(ymd example_day, dose_events)]
      \<and> last_min ?c1 \<noteq> Some (strftime_Ymd_HM ?t)"
    using lm by (simp add: example_day_range)
  have 1: "update_process_dosing ?t ?c1
     = Inr (?c1\<lparr>nut_running_until := Some (mk_datetime example_day 9 0 50),
                 last_min := Some (strftime_Ymd_HM ?t)\<rparr>)"
    using dosing_deadline [of ?c1 _ _ _ _ _ _ example_day] h1 by blast
  have d2: "dur_total ?t ?c2 = 1 / 4000000"
    by (simp add: dur_total_example tiny_dose_events_def)
  have h2: "last_min (chan ?w) \<noteq> Some (strftime_Ymd_HM (tnow warm_tick))
      \<and> 0 < dur_total (tnow warm_tick) (chan ?w)
      \<and> datetime_add (tnow warm_tick) (dur_total (tnow warm_tick) (chan ?w)) = Inr ?t
      \<and> ?t \<le> tnow warm_tick"
    using lm by (simp add: warm_tick_def d2 datetime_add_tiny)
  have 2: "nut_running_until (chan (update_process warm_tick ?w)) = None"
    using dosing_deadline [of _ _ ?t _ _ ?w warm_tick] h2 by blast
  have d3: "dur_total ?t ?c3 = 1000000000000"
    by (simp add: dur_total_example huge_dose_events_def)
  have h3: "last_min ?c3 \<noteq> Some (strftime_Ymd_HM ?t) \<and> 0 < dur_total ?t ?c3
      \<and> datetime_add ?t (dur_total ?t ?c3) = Inl OverflowError"
    using lm by (simp add: d3 datetime_add_huge)
  have 3: "update_process_dosing ?t ?c3 = Inl OverflowError"
    using dosing_deadline [of ?c3 ?t _ OverflowError] h3 by blast
  from 1 2 3 show ?thesis by simp
qed

text \<open>
  The claim as the specification words it (all fired values summed) fails when a fired
  value is negative: with the events (09:00, 30) and (09:00, -20) on 2024-03-10 the code
  sets the deadline to 09:00:30, the sum of all values would give 09:00:10.
\<close>

theorem dosing_sum_counterexample:
  "update_process_dosing (mk_datetime example_day 9 0 0)
        (example_channel\<lparr>cal_nut := [(ymd example_day, mixed_dose_events)]\<rparr>)
     = Inr (example_channel\<lparr>cal_nut := [(ymd example_day, mixed_dose_events)],
              nut_running_until := Some (mk_datetime example_day 9 0 30),
              last_min := Some (strftime_Ymd_HM (mk_datetime example_day 9 0 0))\<rparr>)
   \<and> spec_dosing_until (mk_datetime example_day 9 0 0)
        (example_channel\<lparr>cal_nut := [(ymd example_day, mixed_dose_events)]\<rparr>)
     = Some (mk_datetime example_day 9 0 10)
   \<and> mk_datetime example_day 9 0 30 \<noteq> mk_datetime example_day 9 0 10"
proof -
  let ?t = "mk_datetime example_day 9 0 0"
  let ?ch = "example_channel\<lparr>cal_nut := [(ymd example_day, mixed_dose_events)]\<rparr>"
  have fire: "nut_fire_for_minute (Some (cal_nut ?ch)) ?t = [30, - 20]"
    by (simp add: fire_example mixed_dose_events_def)
  have dt: "dur_total ?t ?ch = 30"
    unfolding dur_total_def fire by simp
  have lm: "last_min ?ch = None"
    by (simp add: example_channel_def init_channel_def)
  have eq: "?t + 30 = mk_datetime example_day 9 0 30" "?t + 10 = mk_datetime example_day 9 0 10"
    by (simp_all add: mk_datetime_def)
  have "0 \<le> ?t" "mk_datetime example_day 9 0 30 < MAX_DATETIME"
    using example_day_range by (simp_all add: mk_datetime_range)
  then have "datetime_add ?t 30 = Inr (?t + 30)"
    by (intro datetime_add_whole [where n = 30000000]) (simp_all add: eq)
  then have 1: "update_process_dosing ?t ?ch
     = Inr (?ch\<lparr>nut_running_until := Some (mk_datetime example_day 9 0 30),
                 last_min := Some (strftime_Ymd_HM ?t)\<rparr>)"
    using lm by (simp add: dosing_unfold dt eq)
  have 2: "spec_dosing_until ?t ?ch = Some (mk_datetime example_day 9 0 10)"
    unfolding spec_dosing_until_def fire by (simp add: mk_datetime_def)
  have 3: "mk_datetime example_day 9 0 30 \<noteq> mk_datetime example_day 9 0 10"
    by (simp add: mk_datetime_def)
  from 1 2 3 show ?thesis by simp
qed

subsection \<open>Temperature sensor fallback\<close>

lemma read_temp_failure_value:
  "fst (read_temp_ds18b20 h i r W1_exception) = (if sim h \<or> ds_devices h = [] then 20 + sim_bias h (min i 2) + r else 20)"
  by (simp add: read_temp_ds18b20_def Let_def)

lemma read_temp_clears_flag:
  "\<not> sim h \<Longrightarrow> ds_devices h \<noteq> [] \<Longrightarrow> \<not> last_temp_error (snd (read_temp_ds18b20 h i r out))"
  by (simp add: read_temp_ds18b20_def Let_def split: w1_read.split)

lemma read_temp_failure_prints:
  "\<not> sim h \<Longrightarrow> ds_devices h \<noteq> [] \<Longrightarrow> \<not> last_temp_error h \<Longrightarrow>
     length (printed (snd (read_temp_ds18b20 h i r W1_exception))) = Suc (length (printed h))"
  by (simp add: read_temp_ds18b20_def Let_def)

text \<open>
  C4.  A failing read in hardware mode returns the fallback 20.0.  The claim that only
  the first failure of a run is logged does not hold of the code: the \<open>finally\<close> clause
  resets \<open>_last_temp_error\<close> after every read, failing or not, so the flag is never set
  when the next read starts.  Two consecutive failing reads on one sensor print two
  lines.
\<close>

theorem read_temp_logs_every_failure:
  "fst (read_temp_ds18b20 example_hardware 0 0 W1_exception) = 20
   \<and> printed (snd (read_temp_ds18b20 example_hardware 0 0 W1_exception))
       = [Temp_read_error ''/sys/bus/w1/devices/28-0001'']
   \<and> \<not> last_temp_error (snd (read_temp_ds18b20 example_hardware 0 0 W1_exception))
   \<and> fst (read_temp_ds18b20 (snd (read_temp_ds18b20 example_hardware 0 0 W1_exception)) 0 0
            W1_exception) = 20
   \<and> printed (snd (read_temp_ds18b20 (snd (read_temp_ds18b20 example_hardware 0 0 W1_exception))
                     0 0 W1_exception))
       = [Temp_read_error ''/sys/bus/w1/devices/28-0001'',
          Temp_read_error ''/sys/bus/w1/devices/28-0001'']"
  by (simp add: read_temp_ds18b20_def example_hardware_def Let_def)

theorem read_temp_logs_every_failure_witness:
  "length (printed (snd (read_temp_ds18b20
                           (snd (read_temp_ds18b20 example_hardware 0 0 W1_exception))
                           0 0 W1_exception))) = 2"
  using read_temp_logs_every_failure by simp

subsection \<open>Persistence sinks\<close>

lemma strftime_example: "strftime_Ymd_HMS (mk_datetime example_day 9 0 0) = ''2024-03-10 09:00:00''"
proof -
  have "second (mk_datetime example_day 9 0 0) = 0"
    by (simp add: second_def floor_mk example_day_def)
  then show ?thesis
    by (simp add: strftime_Ymd_HMS_def date_of_mk_datetime ymd_example_day strftime_HM_mk
        pad2_examples)
qed

lemma channel_sink_empty_file:
  assumes "csv_running ch" "fs (csv_path ch) = Some []" "csv_path ch \<noteq> bpath"
  shows "\<exists>r. csv_write_row st False backup_fails bpath ch fs (csv_path ch) = Some [Proc_row r]"
  using assms
  by (simp add: csv_write_row_def Let_def append_lines_def path_exists_def)

lemma backup_sink_header:
  assumes "\<not> csv_running ch \<or> csv_path ch \<noteq> bpath"
  shows "\<exists>r. csv_write_row st chan_fails False bpath ch fs bpath
           = Some ((case fs bpath of None \<Rightarrow> [] | Some old \<Rightarrow> old)
                   @ (if fs bpath = None \<or> fs bpath = Some [] then [Header proc_fields] else [])
                   @ [Proc_row r])"
  using assms
  by (auto simp: csv_write_row_def Let_def append_lines_def path_exists_def getsize_zero_def)

text \<open>
  C3.  The global backup sink writes its header when the file is missing or has zero
  length.  The channel's sink tests only that the file is missing: with both files
  present and empty, one call of \<open>_csv_write_row\<close> leaves the channel's file starting
  with a data row and no header, while the backup file receives header and row.
\<close>

theorem channel_sink_misses_header:
  "csv_write_row (mk_datetime example_day 9 0 0) False False ''backup.csv'' recording_channel
     empty_files ''Proceso/Temp_F1.csv'' = Some [Proc_row example_row]
   \<and> csv_write_row (mk_datetime example_day 9 0 0) False False ''backup.csv'' recording_channel
     empty_files ''backup.csv'' = Some [Header proc_fields, Proc_row example_row]"
  by (simp add: csv_write_row_def Let_def append_lines_def path_exists_def getsize_zero_def
      recording_channel_def example_channel_def init_channel_def empty_files_def example_row_def
      strftime_example)

theorem channel_sink_misses_header_witness:
  "csv_write_row (mk_datetime example_day 9 0 0) False False ''backup.csv'' recording_channel
     empty_files ''Proceso/Temp_F1.csv''
   \<noteq> csv_write_row (mk_datetime example_day 9 0 0) False False ''backup.csv'' recording_channel
       empty_files ''backup.csv''"
  using channel_sink_misses_header by simp

subsection \<open>Flow sampling\<close>

lemma flow_take_sample_sample:
  assumes "flow_reader fc = Some rd" "shunt_ohms rd \<noteq> 0"
  shows "taken_sample (flow_take_sample cfg ts (Voltage v) cf bf bp (fs, fc))
           = Some (ts, current_to_flow_sccm cfg (v / shunt_ohms rd * 1000),
                   v / shunt_ohms rd * 1000, v, status_of (v / shunt_ohms rd * 1000))"
proof -
  have "0 \<le> MAX_FLOW_HISTORY_HOURS * 3600" by (simp add: MAX_FLOW_HISTORY_HOURS_def)
  then have keep: "ts - MAX_FLOW_HISTORY_HOURS * 3600 \<le> ts" by simp
  show ?thesis
    using assms keep
    by (simp add: flow_take_sample_def taken_sample_def voltage_to_current_ma_def status_of_def
        Let_def)
qed

lemma flow_low_clamped:
  assumes "FLOW_MIN_SCCM cfg < FLOW_MAX_SCCM cfg" "c \<le> 4"
  shows "current_to_flow_sccm cfg c = FLOW_MIN_SCCM cfg"
  using assms by (simp add: current_to_flow_sccm_def max_def min_def)

lemma example_current: "(0.56092 :: real) / 148 * 1000 = 3.79"
  by simp

text \<open>
  C8 (as amended).  For every sample the sampling scheduler takes (a reader is present,
  the voltage is read, the shunt is not zero), the status is classified from the
  unclamped current voltage / shunt * 1000: \<open>Bajo rango\<close> (low range) below 3.8 mA,
  \<open>Alto rango\<close> (high range) above 20.5 mA, \<open>OK\<close> otherwise; the stored flow is
  \<open>current_to_flow_sccm\<close> of that current, which is computed from the current clamped
  to 4..20 mA when the maximum flow exceeds the minimum, and is 0 when it does not.  A
  current of 3.79 mA (0.56092 V over 148 ohm) yields the status \<open>Bajo rango\<close> together
  with a flow equal to the minimum flow, provided the maximum flow exceeds the minimum.
\<close>

theorem flow_sample_status:
  "(flow_reader fc = Some rd \<and> shunt_ohms rd \<noteq> 0
      \<longrightarrow> taken_sample (flow_take_sample cfg ts (Voltage v) cf bf bp (fs, fc))
            = Some (ts, current_to_flow_sccm cfg (v / shunt_ohms rd * 1000),
                    v / shunt_ohms rd * 1000, v, status_of (v / shunt_ohms rd * 1000)))
   \<and> (c < 3.8 \<longrightarrow> status_of c = ''Bajo rango'')
   \<and> (20.5 < c \<longrightarrow> status_of c = ''Alto rango'')
   \<and> (3.8 \<le> c \<and> c \<le> 20.5 \<longrightarrow> status_of c = ''OK'')
   \<and> (FLOW_MIN_SCCM cfg < FLOW_MAX_SCCM cfg
      \<longrightarrow> current_to_flow_sccm cfg c
            = FLOW_MIN_SCCM cfg
                + ((if c < 4 then 4 else if 20 < c then 20 else c) - 4)
                    * (FLOW_MAX_SCCM cfg - FLOW_MIN_SCCM cfg) / 16)
   \<and> (FLOW_MAX_SCCM cfg \<le> FLOW_MIN_SCCM cfg \<longrightarrow> current_to_flow_sccm cfg c = 0)
   \<and> (FLOW_MIN_SCCM cfg < FLOW_MAX_SCCM cfg
      \<longrightarrow> taken_sample (flow_take_sample cfg ts (Voltage 0.56092) cf bf bp
                          (fs, example_flow_channel))
            = Some (ts, FLOW_MIN_SCCM cfg, 3.79, 0.56092, ''Bajo rango''))"
proof -
  have a: "taken_sample (flow_take_sample cfg ts (Voltage v) cf bf bp (fs, fc))
            = Some (ts, current_to_flow_sccm cfg (v / shunt_ohms rd * 1000),
                    v / shunt_ohms rd * 1000, v, status_of (v / shunt_ohms rd * 1000))"
    if "flow_reader fc = Some rd" "shunt_ohms rd \<noteq> 0"
    using that by (rule flow_take_sample_sample)
  have b: "c < 3.8 \<longrightarrow> status_of c = ''Bajo rango''"
    "20.5 < c \<longrightarrow> status_of c = ''Alto rango''"
    "3.8 \<le> c \<and> c \<le> 20.5 \<longrightarrow> status_of c = ''OK''"
    by (simp_all add: status_of_def)
  have c: "current_to_flow_sccm cfg c
            = FLOW_MIN_SCCM cfg
                + ((if c < 4 then 4 else if 20 < c then 20 else c) - 4)
                    * (FLOW_MAX_SCCM cfg - FLOW_MIN_SCCM cfg) / 16"
    if "FLOW_MIN_SCCM cfg < FLOW_MAX_SCCM cfg"
    using that by (simp add: current_to_flow_sccm_def max_def min_def)
  have d: "current_to_flow_sccm cfg c = 0" if "FLOW_MAX_SCCM cfg \<le> FLOW_MIN_SCCM cfg"
    using that by (simp add: current_to_flow_sccm_def)
  have e: "taken_sample (flow_take_sample cfg ts (Voltage 0.56092) cf bf bp
                          (fs, example_flow_channel))
            = Some (ts, FLOW_MIN_SCCM cfg, 3.79, 0.56092, ''Bajo rango'')"
    if "FLOW_MIN_SCCM cfg < FLOW_MAX_SCCM cfg"
  proof -
    have r: "flow_reader example_flow_channel = Some \<lparr>shunt_ohms = 148\<rparr>"
      "shunt_ohms \<lparr>shunt_ohms = 148\<rparr> \<noteq> 0"
      by (simp_all add: example_flow_channel_def)
    have "current_to_flow_sccm cfg 3.79 = FLOW_MIN_SCCM cfg"
      using that by (rule flow_low_clamped) simp
    moreover have "status_of 3.79 = ''Bajo rango''" by (simp add: status_of_def)
    ultimately show ?thesis
      using flow_take_sample_sample [OF r, of cfg ts "0.56092" cf bf bp fs]
      by (simp add: example_current)
  qed
  from a b c d e show ?thesis by blast
qed

theorem flow_sample_status_witness:
  "taken_sample (flow_take_sample default_settings (mk_datetime example_day 9 0 0)
       (Voltage 0.56092) False False ''co2_backup.csv'' (Map.empty, example_flow_channel))
     = Some (mk_datetime example_day 9 0 0, 0, 3.79, 0.56092, ''Bajo rango'')
   \<and> status_of 21 = ''Alto rango'' \<and> status_of 12 = ''OK''"
  using flow_sample_status [of _ _ default_settings _ _ _ _ _ _ 21]
    flow_sample_status [of _ _ default_settings "mk_datetime example_day 9 0 0" _ False False
      "''co2_backup.csv''" Map.empty 12]
  by (simp add: default_settings_def)

text \<open>
  Without that proviso the claim fails: with the minimum flow 10 and the maximum flow 5
  the same sample has status \<open>Bajo rango\<close> and flow 0, not 10.
\<close>

theorem flow_min_counterexample:
  "taken_sample (flow_take_sample reversed_settings (mk_datetime example_day 9 0 0)
       (Voltage 0.56092) False False ''co2_backup.csv'' (Map.empty, example_flow_channel))
     = Some (mk_datetime example_day 9 0 0, 0, 3.79, 0.56092, ''Bajo rango'')
   \<and> FLOW_MIN_SCCM reversed_settings = 10"
proof -
  have r: "flow_reader example_flow_channel = Some \<lparr>shunt_ohms = 148\<rparr>"
    "shunt_ohms \<lparr>shunt_ohms = 148\<rparr> \<noteq> 0"
    by (simp_all add: example_flow_channel_def)
  have "current_to_flow_sccm reversed_settings 3.79 = 0"
    by (simp add: current_to_flow_sccm_def reversed_settings_def)
  moreover have "status_of 3.79 = ''Bajo rango''" by (simp add: status_of_def)
  ultimately show ?thesis
    using flow_take_sample_sample [OF r, of reversed_settings "mk_datetime example_day 9 0 0"
        "0.56092" False False "''co2_backup.csv''" Map.empty]
    by (simp add: example_current reversed_settings_def)
qed

end
